theory Spec2Isabelle
  imports Main "HOL-Library.Word"
begin

section \<open>Wide characters and native strings\<close>

text \<open>
  A \<^verbatim>\<open>wchar_t\<close> of the Windows ABI is a 16-bit code unit.  A NUL-terminated wide string
  is modelled by the list of its code units before the terminator, so the list
  \<open>[]\<close> is the empty string and \<open>*p\<close> is false exactly when the list at the cursor
  is empty.  A cursor into a string is the suffix of the string it points at.
\<close>

type_synonym wchar = "16 word"
type_synonym wstring = "wchar list"

definition L :: "string \<Rightarrow> wstring" where
  "L s = map (\<lambda>c. of_nat (of_char c)) s"

definition wc_quote :: wchar where "wc_quote = 0x22"
definition wc_semicolon :: wchar where "wc_semicolon = 0x3B"
definition wc_slash :: wchar where "wc_slash = 0x2F"
definition wc_backslash :: wchar where "wc_backslash = 0x5C"
definition wc_percent :: wchar where "wc_percent = 0x25"

definition MAX_PATH :: nat where "MAX_PATH = 260"

section \<open>The PATH-string walker\<close>

text \<open>
  \<^verbatim>\<open>for (buflen--; *path && *path != term && buflen; buflen--) *buf++ = *path++;\<close>
  The third argument is the value of \<open>buflen\<close> after the initial decrement.  The result
  is the list of characters stored through \<open>buf\<close>, in order from \<open>buf[0]\<close>, and the
  cursor left in \<open>path\<close>.
\<close>

fun walk_copy :: "wchar \<Rightarrow> wstring \<Rightarrow> nat \<Rightarrow> wstring \<times> wstring" where
  "walk_copy term [] buflen = ([], [])"
| "walk_copy term (c # path) buflen =
     (if c \<noteq> term \<and> buflen \<noteq> 0
      then (case walk_copy term path (buflen - 1) of (stored, path') \<Rightarrow> (c # stored, path'))
      else ([], c # path))"

text \<open>\<^verbatim>\<open>while (*path == term || *path == L';') path++;\<close>\<close>

fun walk_skip :: "wchar \<Rightarrow> wstring \<Rightarrow> wstring" where
  "walk_skip term [] = []"
| "walk_skip term (c # path) =
     (if c = term \<or> c = wc_semicolon then walk_skip term path else c # path)"

text \<open>
  \<open>win32_walkpath path buflen\<close> returns the characters written to the destination
  (the copied entry followed by the terminating NUL) and the new cursor, \<open>None\<close> standing
  for the \<open>NULL\<close> result.  The pointers \<open>path\<close> and \<open>buf\<close> are never null in the model;
  a zero \<open>buflen\<close> fails the argument assertion, which returns \<open>NULL\<close> before anything is
  written.  The final comparison \<open>path != base\<close> compares two cursors into the same
  string, which differ exactly when the suffixes have different lengths.
\<close>

definition win32_walkpath :: "wstring \<Rightarrow> nat \<Rightarrow> wstring \<times> wstring option" where
  "win32_walkpath path buflen =
     (if buflen = 0 then ([], None)
      else
        let quoted = (case path of [] \<Rightarrow> False | c # rest \<Rightarrow> c = wc_quote);
            term = (if quoted then wc_quote else wc_semicolon);
            p1 = (if quoted then tl path else path);
            (stored, p2) = walk_copy term p1 (buflen - 1);
            p3 = walk_skip term p2
        in (stored @ [0], if length p3 \<noteq> length path then Some p3 else None))"

text \<open>The string a destination array holds: its characters before the first NUL.\<close>

definition cstr :: "wstring \<Rightarrow> wstring" where
  "cstr b = takeWhile (\<lambda>c. c \<noteq> 0) b"

section \<open>Portable path strings\<close>

text \<open>
  A \<^verbatim>\<open>git_str\<close> is modelled by its contents, a UTF-8 byte string: \<open>buf.ptr\<close> is the
  string and \<open>buf.size\<close> its length.  Growing a string never fails in the model,
  so \<^verbatim>\<open>git_str_oom\<close> is always false.

  Modelled from the spec: the string operations \<^verbatim>\<open>git_str_sets\<close>, \<^verbatim>\<open>git_str_set\<close>,
  \<^verbatim>\<open>git_str_clear\<close>, \<^verbatim>\<open>git_str_join\<close> and \<^verbatim>\<open>git_str_oom\<close> are not part of the file
  under study.  The spec describes the output as an "ordered, delimiter-joined" string
  whose delimiter is the path-list separator \<open>;\<close>; joining onto an empty list gives the
  entry alone.
\<close>

type_synonym git_str = string

definition GIT_PATH_LIST_SEPARATOR :: char where
  "GIT_PATH_LIST_SEPARATOR = CHR '';''"

definition GIT_ENOTFOUND :: int where
  "GIT_ENOTFOUND = - 3"

definition git_str_sets :: "git_str \<Rightarrow> string \<Rightarrow> int \<times> git_str" where
  "git_str_sets dest s = (0, s)"

definition git_str_set :: "git_str \<Rightarrow> string \<Rightarrow> nat \<Rightarrow> git_str" where
  "git_str_set dest s n = take n s"

definition git_str_clear :: "git_str \<Rightarrow> git_str" where
  "git_str_clear dest = []"

definition git_str_join :: "git_str \<Rightarrow> char \<Rightarrow> string \<Rightarrow> string \<Rightarrow> git_str" where
  "git_str_join dest sep a b = (if a = [] then b else a @ sep # b)"

definition git_str_oom :: "git_str \<Rightarrow> bool" where
  "git_str_oom s = False"

text \<open>
  Modelled from the spec: \<^verbatim>\<open>git_win32_path_to_utf8\<close> is missing from the file under
  study; the spec says it converts the native encoding to UTF-8 and can fail.  The
  model is the UTF-16 to UTF-8 transcoding, which fails on an unpaired surrogate.
\<close>

fun git_win32_path_to_utf8 :: "wstring \<Rightarrow> string option" where
  "git_win32_path_to_utf8 [] = Some []"
| "git_win32_path_to_utf8 (u # us) =
     (let n = unat u in
      if n < 0x80 then
        map_option (\<lambda>r. char_of n # r) (git_win32_path_to_utf8 us)
      else if n < 0x800 then
        map_option (\<lambda>r. char_of (0xC0 + n div 64) # char_of (0x80 + n mod 64) # r)
          (git_win32_path_to_utf8 us)
      else if 0xD800 \<le> n \<and> n < 0xDC00 then
        (case us of
           [] \<Rightarrow> None
         | l # rest \<Rightarrow>
             let m = unat l in
             if 0xDC00 \<le> m \<and> m < 0xE000 then
               let cp = 0x10000 + (n - 0xD800) * 1024 + (m - 0xDC00) in
               map_option
                 (\<lambda>r. char_of (0xF0 + cp div 262144) # char_of (0x80 + cp div 4096 mod 64)
                        # char_of (0x80 + cp div 64 mod 64) # char_of (0x80 + cp mod 64) # r)
                 (git_win32_path_to_utf8 rest)
             else None)
      else if 0xDC00 \<le> n \<and> n < 0xE000 then None
      else
        map_option
          (\<lambda>r. char_of (0xE0 + n div 4096) # char_of (0x80 + n div 64 mod 64)
                 # char_of (0x80 + n mod 64) # r)
          (git_win32_path_to_utf8 us))"

text \<open>
  Modelled from the spec: \<^verbatim>\<open>git_path_mkposix\<close> is missing from the file under study;
  it rewrites every backslash to a forward slash and alters nothing else.
\<close>

definition git_path_mkposix :: "string \<Rightarrow> string" where
  "git_path_mkposix s = map (\<lambda>c. if c = CHR 0x5C then CHR ''/'' else c) s"

text \<open>
  \<^verbatim>\<open>win32_path_to_8\<close>: on a conversion failure the destination is left as it was and
  the result is \<open>-1\<close>.
\<close>

definition win32_path_to_8 :: "git_str \<Rightarrow> wstring \<Rightarrow> int \<times> git_str" where
  "win32_path_to_8 dest src =
     (case git_win32_path_to_utf8 src of
        None \<Rightarrow> (- 1, dest)
      | Some utf8_path \<Rightarrow> git_str_sets dest (git_path_mkposix utf8_path))"

section \<open>The operating system\<close>

text \<open>
  The code reads the process environment, the file system and the registry through
  platform primitives.  Their answers are the fields of a record:
  \<^item> \<open>wgetenv\<close>: \<^verbatim>\<open>_wgetenv\<close>, \<open>None\<close> for an absent variable;
  \<^item> \<open>waccess\<close>: whether \<^verbatim>\<open>_waccess(path, F_OK)\<close> returns 0;
  \<^item> \<open>reg_open\<close>: \<^verbatim>\<open>RegOpenKeyExW\<close>, \<open>None\<close> when the key cannot be opened, otherwise the
    named values of the key, each a type and its stored string;
  \<^item> \<open>expand_env\<close>: the full result of expanding the \<open>%VAR%\<close> tokens of a template,
    \<open>None\<close> when the primitive fails.
\<close>

datatype hive = HKEY_CURRENT_USER | HKEY_LOCAL_MACHINE

datatype reg_type = REG_SZ | REG_EXPAND_SZ | REG_MULTI_SZ | REG_BINARY | REG_DWORD

type_synonym reg_key = "wstring \<Rightarrow> (reg_type \<times> wstring) option"

record os =
  wgetenv :: "wstring \<Rightarrow> wstring option"
  waccess :: "wstring \<Rightarrow> bool"
  reg_open :: "hive \<Rightarrow> wstring \<Rightarrow> reg_key option"
  expand_env :: "wstring \<Rightarrow> wstring option"

text \<open>
  A write past the end of a fixed-size array is undefined in C; the model makes it
  the result \<open>Inl Overflow\<close>.  \<open>cap\<close> is the number of wide characters of a
  \<^verbatim>\<open>git_win32_path\<close>, a type declared outside the file under study.
\<close>

datatype fault = Overflow

text \<open>
  \<^verbatim>\<open>wcscpy(&dst[off], src)\<close> on an array of \<open>cap\<close> characters holding the string \<open>dst\<close>,
  for \<open>off \<le> length dst\<close>: the array then holds the first \<open>off\<close> characters of \<open>dst\<close>
  followed by \<open>src\<close>, and the terminator is stored at index \<open>off + length src\<close>.
\<close>

definition wcscpy_at :: "nat \<Rightarrow> wstring \<Rightarrow> nat \<Rightarrow> wstring \<Rightarrow> wstring option" where
  "wcscpy_at cap dst off src =
     (if off + length src + 1 \<le> cap then Some (take off dst @ src) else None)"

definition wcscat :: "nat \<Rightarrow> wstring \<Rightarrow> wstring \<Rightarrow> wstring option" where
  "wcscat cap dst src = wcscpy_at cap dst (length dst) src"

section \<open>The executable locator\<close>

text \<open>The walker's loops in closed form, and the progress of its cursor.\<close>

lemma walk_skip_dropWhile:
  "walk_skip t p = dropWhile (\<lambda>c. c = t \<or> c = wc_semicolon) p"
  by (induction p) auto

lemma walk_copy_eq:
  "walk_copy t p n =
     (take n (takeWhile (\<lambda>c. c \<noteq> t) p),
      drop (length (take n (takeWhile (\<lambda>c. c \<noteq> t) p))) p)"
proof (induction p arbitrary: n)
  case Nil
  show ?case by simp
next
  case (Cons c p)
  show ?case
  proof (cases n)
    case 0
    then show ?thesis by simp
  next
    case (Suc m)
    then show ?thesis by (simp add: Cons [of m])
  qed
qed

lemma win32_walkpath_eq:
  "win32_walkpath path buflen =
     (if buflen = 0 then ([], None)
      else
        let quoted = (case path of [] \<Rightarrow> False | c # rest \<Rightarrow> c = wc_quote);
            term = (if quoted then wc_quote else wc_semicolon);
            p1 = (if quoted then tl path else path);
            stored = take (buflen - 1) (takeWhile (\<lambda>c. c \<noteq> term) p1);
            p3 = dropWhile (\<lambda>c. c = term \<or> c = wc_semicolon) (drop (length stored) p1)
        in (stored @ [0], if length p3 \<noteq> length path then Some p3 else None))"
  by (simp add: win32_walkpath_def walk_copy_eq walk_skip_dropWhile Let_def
        del: walk_copy.simps)

lemma win32_walkpath_advances:
  assumes "win32_walkpath env n = (stored, Some env')"
  shows "length env' < length env"
proof -
  have le: "length (dropWhile P (drop k p)) \<le> length p" for P k and p :: wstring
    using length_dropWhile_le [of P "drop k p"] by simp
  have le': "length (dropWhile P (drop k (tl p))) \<le> length p" for P k and p :: wstring
    using length_dropWhile_le [of P "drop k (tl p)"] by simp
  from assms show ?thesis
    unfolding win32_walkpath_eq Let_def
    by (auto split: if_splits simp: le_neq_implies_less le le'
          simp del: length_drop length_tl)
qed

text \<open>
  The loop of \<^verbatim>\<open>win32_find_git_in_path\<close>; \<open>env\<close> is the cursor into the value of
  \<open>PATH\<close> and \<open>buf\<close> the caller's string.  The array \<open>root.path\<close> has \<open>cap\<close>
  characters.  The value of \<^verbatim>\<open>win32_path_to_8\<close> is dropped by the code, so the result
  is 0 whenever a probe hits, whether or not \<open>buf\<close> was written.
\<close>

function find_git_in_path_loop ::
  "os \<Rightarrow> nat \<Rightarrow> git_str \<Rightarrow> wstring \<Rightarrow> wstring \<Rightarrow> wstring \<Rightarrow> fault + int \<times> git_str" where
  "find_git_in_path_loop os cap buf gitexe subdir env =
     (case win32_walkpath env (MAX_PATH - 1) of
        (stored, None) \<Rightarrow> Inr (GIT_ENOTFOUND, buf)
      | (stored, Some env') \<Rightarrow>
          (if cap < length stored then Inl Overflow
           else if cstr stored = [] then Inr (GIT_ENOTFOUND, buf)
           else
             (let lastch = last (cstr stored) in
              (case (if lastch \<noteq> wc_slash \<and> lastch \<noteq> wc_backslash
                     then wcscpy_at cap (cstr stored) (length (cstr stored)) [wc_backslash]
                     else Some (cstr stored)) of
                 None \<Rightarrow> Inl Overflow
               | Some root \<Rightarrow>
                   (if length root + length gitexe \<ge> MAX_PATH
                    then find_git_in_path_loop os cap buf gitexe subdir env'
                    else
                      (case wcscpy_at cap root (length root) gitexe of
                         None \<Rightarrow> Inl Overflow
                       | Some probe \<Rightarrow>
                           (if waccess os probe \<and> length root > 5 then
                              (case wcscpy_at cap probe (length root - 4) subdir of
                                 None \<Rightarrow> Inl Overflow
                               | Some found \<Rightarrow> Inr (0, snd (win32_path_to_8 buf found)))
                            else find_git_in_path_loop os cap buf gitexe subdir env')))))))"
  by pat_completeness auto
termination
  by (relation "measure (\<lambda>(os, cap, buf, gitexe, subdir, env). length env)")
    (auto dest: win32_walkpath_advances [OF sym])

declare find_git_in_path_loop.simps [simp del]

definition win32_find_git_in_path ::
  "os \<Rightarrow> nat \<Rightarrow> git_str \<Rightarrow> wstring \<Rightarrow> wstring \<Rightarrow> fault + int \<times> git_str" where
  "win32_find_git_in_path os cap buf gitexe subdir =
     (case wgetenv os (L ''PATH'') of
        None \<Rightarrow> Inr (- 1, buf)
      | Some env \<Rightarrow> find_git_in_path_loop os cap buf gitexe subdir env)"

section \<open>The registry reader\<close>

definition REG_MSYSGIT_INSTALL_LOCAL :: wstring where
  "REG_MSYSGIT_INSTALL_LOCAL =
     L ''SOFTWARE'' @ wc_backslash # L ''Microsoft'' @ wc_backslash # L ''Windows''
     @ wc_backslash # L ''CurrentVersion'' @ wc_backslash # L ''Uninstall''
     @ wc_backslash # L ''Git_is1''"

text \<open>The flag is true for a build with \<^verbatim>\<open>_WIN64\<close> defined.\<close>

definition REG_MSYSGIT_INSTALL :: "bool \<Rightarrow> wstring" where
  "REG_MSYSGIT_INSTALL win64 =
     (if win64 then
        L ''SOFTWARE'' @ wc_backslash # L ''Wow6432Node'' @ wc_backslash # L ''Microsoft''
        @ wc_backslash # L ''Windows'' @ wc_backslash # L ''CurrentVersion''
        @ wc_backslash # L ''Uninstall'' @ wc_backslash # L ''Git_is1''
      else REG_MSYSGIT_INSTALL_LOCAL)"

text \<open>
  \<^verbatim>\<open>RegQueryValueExW\<close> with a buffer of \<open>cbData\<close> bytes: a stored string of \<open>n\<close>
  characters is \<open>2 * (n + 1)\<close> bytes of data, terminator included, and the query
  succeeds only if the data fits; otherwise nothing is stored (\<^verbatim>\<open>ERROR_MORE_DATA\<close>).
\<close>

definition RegQueryValueExW ::
  "reg_key \<Rightarrow> wstring \<Rightarrow> nat \<Rightarrow> (reg_type \<times> wstring) option" where
  "RegQueryValueExW hKey name cbData =
     (case hKey name of
        None \<Rightarrow> None
      | Some (dwType, v) \<Rightarrow> if 2 * (length v + 1) \<le> cbData then Some (dwType, v) else None)"

text \<open>
  \<^verbatim>\<open>cbData = (DWORD)(sizeof(path) - wcslen(subdir) * sizeof(wchar_t))\<close>, in bytes, with
  the wrap-around of the unsigned subtraction and of the cast.
\<close>

definition registry_cbData :: "nat \<Rightarrow> wstring \<Rightarrow> nat" where
  "registry_cbData cap subdir =
     unat ((of_nat (cap * 2) :: 32 word) - of_nat (length subdir * 2))"

definition win32_find_git_in_registry ::
  "os \<Rightarrow> nat \<Rightarrow> git_str \<Rightarrow> hive \<Rightarrow> wstring \<Rightarrow> wstring \<Rightarrow> fault + int \<times> git_str" where
  "win32_find_git_in_registry os cap buf hive key subdir =
     (case reg_open os hive key of
        None \<Rightarrow> Inr (GIT_ENOTFOUND, buf)
      | Some hKey \<Rightarrow>
          (case RegQueryValueExW hKey (L ''InstallLocation'') (registry_cbData cap subdir) of
             None \<Rightarrow> Inr (GIT_ENOTFOUND, buf)
           | Some (dwType, v) \<Rightarrow>
               (if cap < length v + 1 then Inl Overflow
                else if dwType \<noteq> REG_SZ then Inr (GIT_ENOTFOUND, buf)
                else
                  (case wcscat cap v subdir of
                     None \<Rightarrow> Inl Overflow
                   | Some path \<Rightarrow>
                       (case win32_path_to_8 buf path of
                          (e, buf') \<Rightarrow> Inr (if e = 0 then 0 else GIT_ENOTFOUND, buf'))))))"

section \<open>Template expansion and the directory prober\<close>

record findfile_path =
  ff_path :: wstring
  ff_len :: nat

text \<open>
  \<^verbatim>\<open>ExpandEnvironmentStringsW(src, dst, nSize)\<close> returns the number of characters of
  the expansion, terminator included, or 0 on failure; the expansion is stored in full
  only when it fits in \<open>nSize\<close> characters.
\<close>

definition ExpandEnvironmentStringsW :: "os \<Rightarrow> wstring \<Rightarrow> nat \<Rightarrow> nat \<times> wstring" where
  "ExpandEnvironmentStringsW os src nSize =
     (case expand_env os src of
        None \<Rightarrow> (0, [])
      | Some s \<Rightarrow> (length s + 1, if length s + 1 \<le> nSize then s else take (nSize - 1) s))"

definition git_win32__expand_path :: "os \<Rightarrow> nat \<Rightarrow> wstring \<Rightarrow> int \<times> findfile_path" where
  "git_win32__expand_path os cap src =
     (case ExpandEnvironmentStringsW os src cap of
        (n, p) \<Rightarrow>
          (if n = 0 \<or> n > cap then (- 1, \<lparr>ff_path = p, ff_len = n\<rparr>)
           else (0, \<lparr>ff_path = p, ff_len = n\<rparr>)))"

text \<open>
  The loop of \<^verbatim>\<open>win32_find_existing_dirs\<close> over the template list, threading \<open>out\<close>
  and the scratch string \<open>buf\<close>.  \<open>path16.path[0]\<close> of an empty string is the
  terminator, which is not \<open>%\<close>.
\<close>

fun find_existing_dirs_loop ::
  "os \<Rightarrow> nat \<Rightarrow> git_str \<Rightarrow> git_str \<Rightarrow> wstring list \<Rightarrow> git_str \<times> git_str" where
  "find_existing_dirs_loop os cap out buf [] = (out, buf)"
| "find_existing_dirs_loop os cap out buf (t # tmpl) =
     (case git_win32__expand_path os cap t of
        (e, path16) \<Rightarrow>
          (if e = 0
              \<and> (case ff_path path16 of [] \<Rightarrow> True | c # rest \<Rightarrow> c \<noteq> wc_percent)
              \<and> waccess os (ff_path path16)
           then
             (case win32_path_to_8 buf (ff_path path16) of
                (r, buf') \<Rightarrow>
                  (if buf' \<noteq> []
                   then find_existing_dirs_loop os cap
                          (git_str_join out GIT_PATH_LIST_SEPARATOR out buf') buf' tmpl
                   else find_existing_dirs_loop os cap out buf' tmpl))
           else find_existing_dirs_loop os cap out buf tmpl))"

definition win32_find_existing_dirs ::
  "os \<Rightarrow> nat \<Rightarrow> git_str \<Rightarrow> wstring list \<Rightarrow> int \<times> git_str" where
  "win32_find_existing_dirs os cap out tmpl =
     (case find_existing_dirs_loop os cap (git_str_clear out) [] tmpl of
        (out', buf) \<Rightarrow> (if git_str_oom out' then - 1 else 0, out'))"

section \<open>The aggregators\<close>

definition git_win32__find_system_dirs ::
  "os \<Rightarrow> bool \<Rightarrow> nat \<Rightarrow> git_str \<Rightarrow> wstring \<Rightarrow> fault + int \<times> git_str" where
  "git_win32__find_system_dirs os win64 cap out subdir =
     (case win32_find_git_in_path os cap [] (L ''git.exe'') subdir of
        Inl f \<Rightarrow> Inl f
      | Inr (e1, buf1) \<Rightarrow>
          (let out1 = (if e1 = 0 \<and> buf1 \<noteq> [] then git_str_set out buf1 (length buf1)
                       else git_str_clear out)
           in case win32_find_git_in_path os cap buf1 (L ''git.cmd'') subdir of
                Inl f \<Rightarrow> Inl f
              | Inr (e2, buf2) \<Rightarrow>
                  (let out2 = (if e2 = 0 \<and> buf2 \<noteq> []
                               then git_str_join out1 GIT_PATH_LIST_SEPARATOR out1 buf2
                               else out1)
                   in case win32_find_git_in_registry os cap buf2 HKEY_CURRENT_USER
                             REG_MSYSGIT_INSTALL_LOCAL subdir of
                        Inl f \<Rightarrow> Inl f
                      | Inr (e3, buf3) \<Rightarrow>
                          (let out3 = (if e3 = 0 \<and> buf3 \<noteq> []
                                       then git_str_join out2 GIT_PATH_LIST_SEPARATOR out2 buf3
                                       else out2)
                           in case win32_find_git_in_registry os cap buf3 HKEY_LOCAL_MACHINE
                                     (REG_MSYSGIT_INSTALL win64) subdir of
                                Inl f \<Rightarrow> Inl f
                              | Inr (e4, buf4) \<Rightarrow>
                                  (let out4 = (if e4 = 0 \<and> buf4 \<noteq> []
                                               then git_str_join out3 GIT_PATH_LIST_SEPARATOR
                                                      out3 buf4
                                               else out3)
                                   in Inr (if git_str_oom out4 then - 1 else 0, out4))))))"

definition global_tmpls :: "wstring list" where
  "global_tmpls =
     [L ''%HOME%'' @ [wc_backslash],
      L ''%HOMEDRIVE%%HOMEPATH%'' @ [wc_backslash],
      L ''%USERPROFILE%'' @ [wc_backslash]]"

definition git_win32__find_global_dirs :: "os \<Rightarrow> nat \<Rightarrow> git_str \<Rightarrow> int \<times> git_str" where
  "git_win32__find_global_dirs os cap out = win32_find_existing_dirs os cap out global_tmpls"

definition xdg_tmpls :: "wstring list" where
  "xdg_tmpls =
     [L ''%XDG_CONFIG_HOME%'' @ wc_backslash # L ''git'',
      L ''%APPDATA%'' @ wc_backslash # L ''git'',
      L ''%LOCALAPPDATA%'' @ wc_backslash # L ''git'',
      L ''%HOME%'' @ wc_backslash # L ''.config'' @ wc_backslash # L ''git'',
      L ''%HOMEDRIVE%%HOMEPATH%'' @ wc_backslash # L ''.config'' @ wc_backslash # L ''git'',
      L ''%USERPROFILE%'' @ wc_backslash # L ''.config'' @ wc_backslash # L ''git'']"

definition git_win32__find_xdg_dirs :: "os \<Rightarrow> nat \<Rightarrow> git_str \<Rightarrow> int \<times> git_str" where
  "git_win32__find_xdg_dirs os cap out = win32_find_existing_dirs os cap out xdg_tmpls"

definition programdata_tmpls :: "wstring list" where
  "programdata_tmpls = [L ''%PROGRAMDATA%'' @ wc_backslash # L ''Git'']"

definition git_win32__find_programdata_dirs :: "os \<Rightarrow> nat \<Rightarrow> git_str \<Rightarrow> int \<times> git_str" where
  "git_win32__find_programdata_dirs os cap out =
     win32_find_existing_dirs os cap out programdata_tmpls"

section \<open>Concrete environments\<close>

text \<open>An environment with nothing in it: no variable, no file, no registry key.\<close>

definition os_empty :: os where
  "os_empty =
     \<lparr>wgetenv = (\<lambda>n. None), waccess = (\<lambda>p. False), reg_open = (\<lambda>h k. None),
      expand_env = (\<lambda>t. None)\<rparr>"

text \<open>
  \<open>PATH\<close> is \<^verbatim>\<open>;C:\Git\bin\<close> and every file exists, in particular
  \<^verbatim>\<open>C:\Git\bin\git.exe\<close>.
\<close>

definition os_leading_semicolon :: os where
  "os_leading_semicolon =
     os_empty
       \<lparr>wgetenv := (\<lambda>n. if n = L ''PATH''
                         then Some (L '';C:'' @ wc_backslash # L ''Git'' @ wc_backslash # L ''bin'')
                         else None),
        waccess := (\<lambda>p. True)\<rparr>"

section \<open>Reference notions for the walker\<close>

text \<open>
  The entry at a cursor: the characters from the cursor (after an opening quote, if
  the first character is one) up to the terminator of the entry.
\<close>

definition entry_at :: "wstring \<Rightarrow> wstring" where
  "entry_at path =
     (case path of
        [] \<Rightarrow> []
      | c # rest \<Rightarrow>
          if c = wc_quote then takeWhile (\<lambda>x. x \<noteq> wc_quote) rest
          else takeWhile (\<lambda>x. x \<noteq> wc_semicolon) path)"

text \<open>
  The entries a caller reads by calling \<^verbatim>\<open>win32_walkpath\<close> again and again, each time
  from the cursor the last call returned, until the result is \<open>NULL\<close>.
\<close>

function walk_all :: "wstring \<Rightarrow> nat \<Rightarrow> wstring list" where
  "walk_all path buflen =
     (case win32_walkpath path buflen of
        (stored, None) \<Rightarrow> []
      | (stored, Some next) \<Rightarrow> cstr stored # walk_all next buflen)"
  by pat_completeness auto
termination
  by (relation "measure (\<lambda>(path, buflen). length path)")
    (auto dest: win32_walkpath_advances [OF sym])

declare walk_all.simps [simp del]

text \<open>
  The spec's reference: a split on the \<open>;\<close> characters that are outside double
  quotes, the quotes themselves dropped; the directory entries are the non-empty
  pieces.
\<close>

fun split_unquoted :: "bool \<Rightarrow> wstring \<Rightarrow> wstring \<Rightarrow> wstring list" where
  "split_unquoted q acc [] = [acc]"
| "split_unquoted q acc (c # cs) =
     (if c = wc_quote then split_unquoted (\<not> q) acc cs
      else if c = wc_semicolon \<and> \<not> q then acc # split_unquoted False [] cs
      else split_unquoted q (acc @ [c]) cs)"

definition naive_split :: "wstring \<Rightarrow> wstring list" where
  "naive_split p = filter (\<lambda>e. e \<noteq> []) (split_unquoted False [] p)"

text \<open>
  A well-formed value of \<open>PATH\<close>, given by its entries: each entry is plain or enclosed
  in double quotes, is not empty and fits the destination with its terminator; a plain
  entry holds no \<open>;\<close> and no quote, a quoted one no quote; every entry but the last is
  followed by one or more \<open>;\<close>, the last by any number.  \<open>render\<close> is the string.
  The last clause of \<open>well_formed\<close> leaves out the values in which a quoted entry
  directly follows a quoted entry.
\<close>

datatype path_item = Plain wstring | Quoted wstring

fun item_text :: "path_item \<Rightarrow> wstring" where
  "item_text (Plain e) = e"
| "item_text (Quoted e) = e"

fun item_source :: "path_item \<Rightarrow> wstring" where
  "item_source (Plain e) = e"
| "item_source (Quoted e) = wc_quote # e @ [wc_quote]"

fun is_quoted :: "path_item \<Rightarrow> bool" where
  "is_quoted (Plain e) = False"
| "is_quoted (Quoted e) = True"

fun item_ok :: "nat \<Rightarrow> path_item \<Rightarrow> bool" where
  "item_ok n (Plain e) =
     (e \<noteq> [] \<and> wc_semicolon \<notin> set e \<and> wc_quote \<notin> set e \<and> 0 \<notin> set e \<and> length e < n)"
| "item_ok n (Quoted e) = (e \<noteq> [] \<and> wc_quote \<notin> set e \<and> 0 \<notin> set e \<and> length e < n)"

fun render :: "(path_item \<times> nat) list \<Rightarrow> wstring" where
  "render [] = []"
| "render ((it, k) # r) = item_source it @ replicate k wc_semicolon @ render r"

fun well_formed :: "nat \<Rightarrow> (path_item \<times> nat) list \<Rightarrow> bool" where
  "well_formed n [] = True"
| "well_formed n [(it, k)] = item_ok n it"
| "well_formed n ((it, k) # (it', k') # r) =
     (item_ok n it \<and> 0 < k \<and> (is_quoted it' \<and> is_quoted it) = False
      \<and> well_formed n ((it', k') # r))"

text \<open>The value \<^verbatim>\<open>"C:\a b";"C:\c d"\<close> of \<open>PATH\<close>: two quoted entries.\<close>

definition path_two_quoted :: wstring where
  "path_two_quoted =
     wc_quote # L ''C:'' @ wc_backslash # L ''a b'' @ wc_quote # wc_semicolon
     # wc_quote # L ''C:'' @ wc_backslash # L ''c d'' @ [wc_quote]"

text \<open>A value of \<open>PATH\<close> whose first entry has 300 characters.\<close>

definition path_long_entry :: wstring where
  "path_long_entry = replicate 300 0x61 @ wc_semicolon # L ''b''"

text \<open>
  The subdirectory \<^verbatim>\<open>\mingw64\share\git\\<close>, the install location \<^verbatim>\<open>C:\Git\\<close>, a registry
  key whose only value is the string \<open>InstallLocation\<close>, and two environments with no
  \<open>PATH\<close> in which that key is the only one: the per-user record, and the machine-wide
  record of a 64-bit build.
\<close>

definition subdir_mingw :: wstring where
  "subdir_mingw =
     wc_backslash # L ''mingw64'' @ wc_backslash # L ''share'' @ wc_backslash # L ''git''
     @ [wc_backslash]"

definition install_location :: wstring where
  "install_location = L ''C:'' @ wc_backslash # L ''Git'' @ [wc_backslash]"

definition install_key :: reg_key where
  "install_key = (\<lambda>n. if n = L ''InstallLocation'' then Some (REG_SZ, install_location) else None)"

definition os_registry_user :: os where
  "os_registry_user =
     os_empty
       \<lparr>reg_open := (\<lambda>h k. if h = HKEY_CURRENT_USER \<and> k = REG_MSYSGIT_INSTALL_LOCAL
                          then Some install_key else None)\<rparr>"

definition os_registry_machine :: os where
  "os_registry_machine =
     os_empty
       \<lparr>reg_open := (\<lambda>h k. if h = HKEY_LOCAL_MACHINE \<and> k = REG_MSYSGIT_INSTALL True
                          then Some install_key else None)\<rparr>"

section \<open>The documented behaviour of the expansion primitive\<close>

text \<open>
  \<^verbatim>\<open>ExpandEnvironmentStringsW\<close> replaces each \<open>%name%\<close> whose variable is defined by the
  value of the variable and leaves the \<open>%name%\<close> portion unexpanded when it is not.
  The scan carries the name read since an opening \<open>%\<close>, if one is open.
\<close>

fun expand_scan :: "(wstring \<Rightarrow> wstring option) \<Rightarrow> wstring option \<Rightarrow> wstring \<Rightarrow> wstring" where
  "expand_scan env None [] = []"
| "expand_scan env (Some name) [] = wc_percent # name"
| "expand_scan env None (c # cs) =
     (if c = wc_percent then expand_scan env (Some []) cs else c # expand_scan env None cs)"
| "expand_scan env (Some name) (c # cs) =
     (if c = wc_percent then
        (case env name of
           Some v \<Rightarrow> v @ expand_scan env None cs
         | None \<Rightarrow> wc_percent # name @ wc_percent # expand_scan env None cs)
      else expand_scan env (Some (name @ [c])) cs)"

definition windows_expand :: "(wstring \<Rightarrow> wstring option) \<Rightarrow> wstring \<Rightarrow> wstring" where
  "windows_expand env t = expand_scan env None t"

text \<open>
  An environment given by its variables and its files, with no registry key, whose
  expansion primitive follows the documented behaviour.
\<close>

definition os_of_env :: "(wstring \<Rightarrow> wstring option) \<Rightarrow> (wstring \<Rightarrow> bool) \<Rightarrow> os" where
  "os_of_env env files =
     \<lparr>wgetenv = env, waccess = files, reg_open = (\<lambda>h k. None),
      expand_env = (\<lambda>t. Some (windows_expand env t))\<rparr>"

text \<open>The variable \<open>X\<close> holds 4101 characters.\<close>

definition os_exact_fit :: os where
  "os_exact_fit =
     os_of_env (\<lambda>n. if n = L ''X'' then Some (replicate 4101 0x61) else None) (\<lambda>p. True)"

text \<open>
  \<open>HOMEDRIVE\<close> is \<open>C:\<close>, no other variable is defined, and the only thing that exists is
  a directory named \<^verbatim>\<open>%HOMEPATH%\<close>, reached as \<^verbatim>\<open>C:%HOMEPATH%\\<close>.
\<close>

definition os_homedrive_only :: os where
  "os_homedrive_only =
     os_of_env (\<lambda>n. if n = L ''HOMEDRIVE'' then Some (L ''C:'') else None)
       (\<lambda>p. p = L ''C:%HOMEPATH%'' @ [wc_backslash])"

section \<open>Reference notions for the locator\<close>

text \<open>
  The directory the locator probes for an entry: the entry with a backslash added
  unless it already ends with a slash or a backslash.
\<close>

definition with_trailing_slash :: "wstring \<Rightarrow> wstring" where
  "with_trailing_slash e =
     (if last e \<noteq> wc_slash \<and> last e \<noteq> wc_backslash then e @ [wc_backslash] else e)"

text \<open>
  An unquoted entry that the walker returns whole: not empty, not starting with a
  quote, without \<open>;\<close> or NUL, and short enough for the walker's destination.
\<close>

definition plain_entry :: "wstring \<Rightarrow> bool" where
  "plain_entry e \<longleftrightarrow>
     e \<noteq> [] \<and> hd e \<noteq> wc_quote \<and> wc_semicolon \<notin> set e \<and> 0 \<notin> set e
     \<and> length e \<le> MAX_PATH - 2"

text \<open>
  The condition under which the loop body returns for an entry: the probe name fits,
  the probed file exists and the directory has more than 5 characters.
\<close>

definition probe_hits :: "os \<Rightarrow> wstring \<Rightarrow> wstring \<Rightarrow> bool" where
  "probe_hits os gitexe e \<longleftrightarrow>
     length (with_trailing_slash e) + length gitexe < MAX_PATH
     \<and> waccess os (with_trailing_slash e @ gitexe)
     \<and> 5 < length (with_trailing_slash e)"

text \<open>A directory without its final segment: what precedes the last separator but one.\<close>

definition parent_dir :: "wstring \<Rightarrow> wstring" where
  "parent_dir d = rev (dropWhile (\<lambda>c. c \<noteq> wc_slash \<and> c \<noteq> wc_backslash) (tl (rev d)))"

text \<open>
  The subdirectory \<^verbatim>\<open>\share\foo\\<close>; the directories \<^verbatim>\<open>C:\Windows\<close>, \<^verbatim>\<open>C:\Tools\Git\bin\<close>
  and \<^verbatim>\<open>C:\Git\mingw64\<close>; an environment whose \<open>PATH\<close> is
  \<^verbatim>\<open>C:\Windows;C:\Tools\Git\bin\<close> and whose only file is \<^verbatim>\<open>C:\Tools\Git\bin\git.exe\<close>; an
  environment whose \<open>PATH\<close> is \<^verbatim>\<open>C:\Git\mingw64\<close> and whose only file is
  \<^verbatim>\<open>C:\Git\mingw64\git.exe\<close>.
\<close>

definition subdir_share :: wstring where
  "subdir_share = wc_backslash # L ''share'' @ wc_backslash # L ''foo'' @ [wc_backslash]"



definition dir_git_mingw64 :: wstring where
  "dir_git_mingw64 = L ''C:'' @ wc_backslash # L ''Git'' @ wc_backslash # L ''mingw64''"


definition os_mingw :: os where
  "os_mingw =
     os_empty
       \<lparr>wgetenv := (\<lambda>n. if n = L ''PATH'' then Some dir_git_mingw64 else None),
        waccess := (\<lambda>p. p = dir_git_mingw64 @ wc_backslash # L ''git.exe'')\<rparr>"

text \<open>
  The entries in front of the one of interest: each is followed by one or more \<open>;\<close>.
  An element is an entry and the number of extra \<open>;\<close> after its first one.
\<close>

definition path_prefix :: "(wstring \<times> nat) list \<Rightarrow> wstring" where
  "path_prefix ms = concat (map (\<lambda>x. fst x @ replicate (Suc (snd x)) wc_semicolon) ms)"



text \<open>
  The directories \<^verbatim>\<open>C:\Git\bin\<close> and \<^verbatim>\<open>C:\?x\cmd\<close>, where \<^verbatim>\<open>?\<close> is the unpaired
  surrogate \<open>0xD800\<close>, and an environment whose \<open>PATH\<close> lists them in this order, whose
  only files are \<^verbatim>\<open>git.exe\<close> in the first and \<^verbatim>\<open>git.cmd\<close> in the second, and which has
  no registry key.
\<close>

definition dir_git_bin :: wstring where
  "dir_git_bin = L ''C:'' @ wc_backslash # L ''Git'' @ wc_backslash # L ''bin''"

definition dir_surrogate_cmd :: wstring where
  "dir_surrogate_cmd = L ''C:'' @ wc_backslash # 0xD800 # L ''x'' @ wc_backslash # L ''cmd''"

definition os_surrogate_cmd :: os where
  "os_surrogate_cmd =
     os_empty
       \<lparr>wgetenv := (\<lambda>n. if n = L ''PATH''
                         then Some (dir_git_bin @ wc_semicolon # dir_surrogate_cmd) else None),
        waccess := (\<lambda>p. p = dir_git_bin @ wc_backslash # L ''git.exe''
                        \<or> p = dir_surrogate_cmd @ wc_backslash # L ''git.cmd'')\<rparr>"

text \<open>
  What a source contributes, by the test the aggregator makes after each call (result
  0 and a non-empty scratch string), and the entries joined by the separator.
\<close>

definition source_entry :: "int \<Rightarrow> git_str \<Rightarrow> git_str option" where
  "source_entry e b = (if e = 0 \<and> b \<noteq> [] then Some b else None)"

fun join_entries :: "git_str list \<Rightarrow> git_str" where
  "join_entries [] = []"
| "join_entries [e] = e"
| "join_entries (e # es) = e @ GIT_PATH_LIST_SEPARATOR # join_entries es"

section \<open>Properties of the walker\<close>

lemma cstr_append_nul: "0 \<notin> set s \<Longrightarrow> cstr (s @ [0]) = s"
  by (induction s) (auto simp: cstr_def)

lemma dropWhile_length_neq:
  "length (dropWhile P p) \<noteq> Suc (length p)"
  "length (dropWhile P p) \<noteq> Suc (Suc (length p))"
  using length_dropWhile_le [of P p] by simp_all

lemma walkpath_leading_semicolon:
  "0 < n \<Longrightarrow> win32_walkpath (wc_semicolon # rest) n =
     ([0], Some (dropWhile (\<lambda>c. c = wc_semicolon) rest))"
  by (simp add: win32_walkpath_eq Let_def dropWhile_length_neq wc_quote_def wc_semicolon_def)

lemma walkpath_empty_quoted:
  "0 < n \<Longrightarrow> win32_walkpath (wc_quote # wc_quote # rest) n =
     ([0], Some (dropWhile (\<lambda>c. c = wc_quote \<or> c = wc_semicolon) rest))"
  by (simp add: win32_walkpath_eq Let_def dropWhile_length_neq)

text \<open>
  Claim C9.  For every input string and every \<open>buflen \<ge> 1\<close>, \<^verbatim>\<open>win32_walkpath\<close> stores at
  most \<open>buflen\<close> wide characters in the destination: at most \<open>buflen - 1\<close> copied
  characters of the entry and then one terminating NUL, which is the last character
  stored.  When the input holds no NUL before its end (it is a C string), the string
  the destination holds on return is exactly the copied characters.
\<close>

theorem walkpath_write_bound:
  assumes "1 \<le> buflen"
  shows "case win32_walkpath path buflen of
           (stored, next) \<Rightarrow>
             length stored \<le> buflen \<and> length (butlast stored) \<le> buflen - 1
             \<and> stored \<noteq> [] \<and> last stored = 0
             \<and> (0 \<notin> set path \<longrightarrow> cstr stored = butlast stored)"
proof -
  have sub: "0 \<notin> set p \<Longrightarrow> 0 \<notin> set (take n (takeWhile P p))" for n P and p :: wstring
    by (meson in_set_takeD set_takeWhileD)
  have sub': "0 \<notin> set p \<Longrightarrow> 0 \<notin> set (take n (takeWhile P (tl p)))" for n P and p :: wstring
    using sub [of "tl p" n P] by (cases p) auto
  show ?thesis
    using assms
    by (auto simp: win32_walkpath_eq Let_def cstr_append_nul sub sub')
qed

theorem walkpath_write_bound_witness:
  "win32_walkpath (L ''abcdef;gh'') 4 = (L ''abc'' @ [0], Some (L ''def;gh''))
   \<and> length (L ''abc'' @ [0]) \<le> 4 \<and> cstr (L ''abc'' @ [0]) = L ''abc''"
  using walkpath_write_bound [of 4 "L ''abcdef;gh''"]
  by (simp add: win32_walkpath_def L_def wc_semicolon_def wc_quote_def cstr_def)

section \<open>Properties of the executable locator\<close>

text \<open>
  Claim C10.  When the value of \<open>PATH\<close> begins with \<open>;\<close> or with an empty double-quoted
  entry, the walker's first call yields the empty entry (only the NUL is stored) with
  a non-null cursor, and \<^verbatim>\<open>win32_find_git_in_path\<close> leaves its loop there: the result is
  not-found and the caller's string is untouched, whatever follows in \<open>PATH\<close> and
  whatever files exist.
\<close>

theorem leading_empty_entry_stops:
  assumes "wgetenv os (L ''PATH'') = Some env"
    and "env = wc_semicolon # rest \<or> env = wc_quote # wc_quote # rest"
    and "1 \<le> cap"
  shows "(\<exists>next. win32_walkpath env (MAX_PATH - 1) = ([0], Some next))
         \<and> win32_find_git_in_path os cap buf gitexe subdir = Inr (GIT_ENOTFOUND, buf)"
proof -
  have w: "\<exists>next. win32_walkpath env (MAX_PATH - 1) = ([0], Some next)"
    using assms(2) walkpath_leading_semicolon [of "MAX_PATH - 1" rest]
      walkpath_empty_quoted [of "MAX_PATH - 1" rest]
    by (auto simp: MAX_PATH_def)
  then obtain nxt where n: "win32_walkpath env (MAX_PATH - 1) = ([0], Some nxt)" by blast
  have "find_git_in_path_loop os cap buf gitexe subdir env = Inr (GIT_ENOTFOUND, buf)"
    using n assms(3) by (subst find_git_in_path_loop.simps) (simp add: cstr_def)
  with w assms(1) show ?thesis by (simp add: win32_find_git_in_path_def)
qed

theorem leading_empty_entry_stops_witness:
  "waccess os_leading_semicolon
     (L ''C:'' @ wc_backslash # L ''Git'' @ wc_backslash # L ''bin'' @ wc_backslash # L ''git.exe'')
   \<and> win32_find_git_in_path os_leading_semicolon 260 ''old'' (L ''git.exe'') (L ''x'')
       = Inr (GIT_ENOTFOUND, ''old'')"
  using leading_empty_entry_stops [of os_leading_semicolon
      "L '';C:'' @ wc_backslash # L ''Git'' @ wc_backslash # L ''bin''"
      "L ''C:'' @ wc_backslash # L ''Git'' @ wc_backslash # L ''bin''" 260 "''old''"
      "L ''git.exe''" "L ''x''"]
  by (simp add: os_leading_semicolon_def os_empty_def L_def wc_semicolon_def)


section \<open>The walker against the reference split\<close>

lemma walkpath_truncates:
  assumes "2 \<le> buflen" and "buflen - 1 \<le> length (entry_at path)"
  shows "\<exists>next. win32_walkpath path buflen = (take (buflen - 1) (entry_at path) @ [0], Some next)"
proof (cases path)
  case Nil
  with assms show ?thesis by (simp add: entry_at_def)
next
  case (Cons c rest)
  show ?thesis
  proof (cases "c = wc_quote")
    case True
    have "length (dropWhile P (drop k rest)) \<noteq> Suc (length rest)" for P k
      using length_dropWhile_le [of P "drop k rest"] by simp
    with True Cons assms show ?thesis
      by (simp add: win32_walkpath_eq entry_at_def Let_def)
  next
    case False
    let ?s = "take (buflen - 1) (takeWhile (\<lambda>x. x \<noteq> wc_semicolon) path)"
    have len: "length ?s = buflen - 1"
      using assms False Cons by (simp add: entry_at_def)
    have a: "length (dropWhile P (drop (length ?s) path)) \<le> length path - length ?s" for P
      using length_dropWhile_le [of P "drop (length ?s) path"] by simp
    have b: "0 < length ?s" using len assms by simp
    have c: "length ?s \<le> length path"
      using length_takeWhile_le [of "\<lambda>x. x \<noteq> wc_semicolon" path] by simp
    have "length (dropWhile P (drop (length ?s) path)) \<noteq> length path" for P
      using a [of P] b c by linarith
    with False Cons assms show ?thesis
      by (simp add: win32_walkpath_eq entry_at_def Let_def del: length_take length_drop)
  qed
qed

text \<open>
  Claim C8.  The locator gives the walker a destination of \<open>MAX_PATH - 1\<close> characters.
  For every entry of at least \<open>MAX_PATH - 2\<close> characters the walker stores exactly the
  first \<open>MAX_PATH - 2\<close> characters of the entry and then the NUL, and returns a cursor,
  not \<open>NULL\<close>: the entry is cut at the end of the destination and the walk goes on.
  (Lemma \<open>walkpath_truncates\<close> is the same fact for every capacity of at least 2; with
  a capacity of 1 nothing can be copied.)
\<close>

theorem walkpath_truncates_long_entry:
  assumes "MAX_PATH - 2 \<le> length (entry_at path)"
  shows "\<exists>next. win32_walkpath path (MAX_PATH - 1)
           = (take (MAX_PATH - 2) (entry_at path) @ [0], Some next)"
  using walkpath_truncates [of "MAX_PATH - 1" path] assms by (simp add: MAX_PATH_def)

lemma entry_at_long: "entry_at path_long_entry = replicate 300 0x61"
proof -
  have e: "entry_at (replicate (Suc n) a @ wc_semicolon # r) = replicate (Suc n) a"
    if "a \<noteq> wc_quote" "a \<noteq> wc_semicolon" for n a r
    using that by (simp add: entry_at_def takeWhile_append)
  have "(300::nat) = Suc 299" by simp
  then show ?thesis
    unfolding path_long_entry_def using e [of "0x61" 299 "L ''b''"]
    by (simp add: wc_quote_def wc_semicolon_def)
qed

theorem walkpath_truncates_long_entry_witness:
  "fst (win32_walkpath path_long_entry (MAX_PATH - 1)) = replicate 258 0x61 @ [0]
   \<and> snd (win32_walkpath path_long_entry (MAX_PATH - 1)) \<noteq> None"
  using walkpath_truncates_long_entry [of path_long_entry]
  by (auto simp: entry_at_long MAX_PATH_def)

lemma walk_two_quoted_1:
  "win32_walkpath path_two_quoted 259 =
     (L ''C:'' @ wc_backslash # L ''a b'' @ [0],
      Some (L ''C:'' @ wc_backslash # L ''c d'' @ [wc_quote]))"
  by (simp add: path_two_quoted_def win32_walkpath_def L_def wc_quote_def wc_semicolon_def
        wc_backslash_def)

lemma walk_two_quoted_2:
  "win32_walkpath (L ''C:'' @ wc_backslash # L ''c d'' @ [wc_quote]) 259 =
     (L ''C:'' @ wc_backslash # L ''c d'' @ [wc_quote, 0], Some [])"
  by (simp add: win32_walkpath_def L_def wc_quote_def wc_semicolon_def wc_backslash_def)

lemma walk_end: "win32_walkpath [] 259 = ([0], None)"
  by (simp add: win32_walkpath_def)

text \<open>
  On every well-formed value in which no quoted entry directly follows a quoted entry,
  the walker returns the entries of the reference split.
\<close>

lemma split_plain:
  "wc_quote \<notin> set e \<Longrightarrow> wc_semicolon \<notin> set e \<Longrightarrow>
     split_unquoted False acc (e @ rest) = split_unquoted False (acc @ e) rest"
  by (induction e arbitrary: acc) auto

lemma split_inside:
  "wc_quote \<notin> set e \<Longrightarrow> split_unquoted True acc (e @ rest) = split_unquoted True (acc @ e) rest"
  by (induction e arbitrary: acc) auto

lemma split_semis:
  "split_unquoted False acc (replicate (Suc k) wc_semicolon @ rest)
     = acc # replicate k [] @ split_unquoted False [] rest"
  by (induction k arbitrary: acc) (auto simp: wc_quote_def wc_semicolon_def)

lemma split_item:
  "item_ok n it \<Longrightarrow>
     split_unquoted False [] (item_source it @ rest) = split_unquoted False (item_text it) rest"
  by (cases it) (auto simp: split_plain split_inside)

lemma naive_split_Nil: "naive_split [] = []"
  by (simp add: naive_split_def)

lemma naive_step:
  assumes "item_ok n it" and "0 < k \<or> rest = []"
  shows "naive_split (item_source it @ replicate k wc_semicolon @ rest)
           = item_text it # naive_split rest"
proof -
  have ne: "item_text it \<noteq> []" using assms(1) by (cases it) auto
  show ?thesis
  proof (cases k)
    case 0
    then have "rest = []" using assms(2) by simp
    then show ?thesis
      using split_item [OF assms(1), of "[]"] ne 0 by (simp add: naive_split_def)
  next
    case (Suc j)
    have "split_unquoted False [] (item_source it @ replicate (Suc j) wc_semicolon @ rest)
        = item_text it # replicate j [] @ split_unquoted False [] rest"
      unfolding split_item [OF assms(1)] by (rule split_semis)
    then show ?thesis using ne Suc by (simp add: naive_split_def)
  qed
qed

lemma naive_split_render:
  "well_formed n es \<Longrightarrow> naive_split (render es) = map (\<lambda>x. item_text (fst x)) es"
proof (induction n es rule: well_formed.induct)
  case (1 n)
  show ?case by (simp add: naive_split_def)
next
  case (2 n it k)
  then show ?case using naive_step [of n it k "[]"] by (simp add: naive_split_Nil)
next
  case (3 n it k it' k' r)
  then show ?case
    using naive_step [of n it k "render ((it', k') # r)"] by simp
qed

lemma render_head:
  assumes "well_formed n ((it, k) # r)"
  shows "render ((it, k) # r) \<noteq> [] \<and> hd (render ((it, k) # r)) \<noteq> wc_semicolon
         \<and> (hd (render ((it, k) # r)) = wc_quote \<longleftrightarrow> is_quoted it)"
proof -
  have "item_ok n it" using assms by (cases r) auto
  then show ?thesis
    by (cases it; cases "item_text it") (auto simp: wc_quote_def wc_semicolon_def)
qed

lemma walk_item:
  assumes "item_ok n it" and "0 < k \<or> rest = []"
    and "rest = [] \<or> (hd rest \<noteq> wc_semicolon \<and> (is_quoted it \<longrightarrow> hd rest \<noteq> wc_quote))"
  shows "win32_walkpath (item_source it @ replicate k wc_semicolon @ rest) n
           = (item_text it @ [0], Some rest)"
proof -
  have dw1: "dropWhile (\<lambda>c. c = wc_semicolon) (replicate k wc_semicolon @ rest) = rest"
    using assms(3) by (cases rest) (auto simp: dropWhile_append3)
  have dw2: "is_quoted it \<Longrightarrow>
      dropWhile (\<lambda>c. c = wc_quote \<or> c = wc_semicolon) (replicate k wc_semicolon @ rest) = rest"
    using assms(3) by (cases rest) (auto simp: dropWhile_append3)
  show ?thesis
  proof (cases it)
    case (Plain e)
    let ?T = "replicate k wc_semicolon @ rest"
    have n0: "0 < n" "length e < n" "e \<noteq> []" using assms(1) Plain by auto
    have q: "(case e @ ?T of [] \<Rightarrow> False | c # r \<Rightarrow> c = wc_quote) = False"
      using assms(1) Plain by (cases e) auto
    have tw: "takeWhile (\<lambda>x. x \<noteq> wc_semicolon) (e @ ?T) = e"
      using assms(1,2) Plain by (cases k) (auto simp: takeWhile_append)
    have ne: "length rest \<noteq> length (e @ ?T)" using n0 by simp
    have "win32_walkpath (e @ ?T) n = (e @ [0], Some rest)"
      unfolding win32_walkpath_eq Let_def q
      using n0 ne by (simp only: tw if_False) (simp add: dw1)
    then show ?thesis using Plain by simp
  next
    case (Quoted e)
    let ?T = "replicate k wc_semicolon @ rest"
    have n0: "0 < n" "length e < n" using assms(1) Quoted by auto
    have tw: "takeWhile (\<lambda>x. x \<noteq> wc_quote) (e @ wc_quote # ?T) = e"
      using assms(1) Quoted by (auto simp: takeWhile_append)
    have dw: "dropWhile (\<lambda>c. c = wc_quote \<or> c = wc_semicolon) ?T = rest"
      using dw2 Quoted by simp
    have "win32_walkpath (wc_quote # e @ wc_quote # ?T) n = (e @ [0], Some rest)"
      unfolding win32_walkpath_eq Let_def
      using n0 by (simp add: tw dw)
    then show ?thesis using Quoted by simp
  qed
qed

lemma walk_all_Nil: "walk_all [] n = []"
  by (subst walk_all.simps) (simp add: win32_walkpath_def)

lemma item_text_cstr: "item_ok n it \<Longrightarrow> cstr (item_text it @ [0]) = item_text it"
  by (cases it) (auto simp: cstr_append_nul)

lemma walk_all_step:
  assumes "item_ok n it" and "0 < k \<or> rest = []"
    and "rest = [] \<or> (hd rest \<noteq> wc_semicolon \<and> (is_quoted it \<longrightarrow> hd rest \<noteq> wc_quote))"
  shows "walk_all (item_source it @ replicate k wc_semicolon @ rest) n
           = item_text it # walk_all rest n"
  by (subst walk_all.simps)
    (simp add: walk_item [OF assms] item_text_cstr [OF assms(1)])

lemma walk_all_render:
  "well_formed n es \<Longrightarrow> walk_all (render es) n = map (\<lambda>x. item_text (fst x)) es"
proof (induction n es rule: well_formed.induct)
  case (1 n)
  show ?case by (simp add: walk_all_Nil)
next
  case (2 n it k)
  then show ?case using walk_all_step [of n it k "[]"] by (simp add: walk_all_Nil)
next
  case (3 n it k it' k' r)
  let ?rest = "render ((it', k') # r)"
  have wf: "well_formed n ((it', k') # r)" using 3 by simp
  have "hd ?rest \<noteq> wc_semicolon \<and> (is_quoted it \<longrightarrow> hd ?rest \<noteq> wc_quote)"
    using render_head [OF wf] 3 by auto
  then have "walk_all (item_source it @ replicate k wc_semicolon @ ?rest) n
           = item_text it # walk_all ?rest n"
    using walk_all_step [of n it k ?rest] 3 by simp
  then show ?case using 3 by simp
qed

lemma walk_all_refines_split:
  "well_formed n es \<Longrightarrow> walk_all (render es) n = naive_split (render es)"
  by (simp add: walk_all_render naive_split_render)

text \<open>
  Claim C2, at the value \<^verbatim>\<open>"C:\a b";"C:\c d"\<close> of \<open>PATH\<close>.  After the first entry the
  skipping loop, whose terminator is still the quote, runs over the closing quote, the
  \<open>;\<close> and the opening quote of the second entry.  The second call therefore starts
  inside the second entry, reads it as an unquoted one and returns it with its closing
  quote attached, where the split on unquoted \<open>;\<close> gives \<^verbatim>\<open>C:\c d\<close>.
\<close>

theorem walk_all_two_quoted:
  "walk_all path_two_quoted (MAX_PATH - 1) =
     [L ''C:'' @ wc_backslash # L ''a b'', L ''C:'' @ wc_backslash # L ''c d'' @ [wc_quote]]
   \<and> naive_split path_two_quoted =
     [L ''C:'' @ wc_backslash # L ''a b'', L ''C:'' @ wc_backslash # L ''c d'']"
proof -
  have n: "MAX_PATH - 1 = 259" by (simp add: MAX_PATH_def)
  have "walk_all path_two_quoted 259 =
     [L ''C:'' @ wc_backslash # L ''a b'', L ''C:'' @ wc_backslash # L ''c d'' @ [wc_quote]]"
    apply (subst walk_all.simps, simp only: walk_two_quoted_1 prod.case option.case)
    apply (subst walk_all.simps, simp only: walk_two_quoted_2 prod.case option.case)
    apply (subst walk_all.simps, simp only: walk_end prod.case option.case)
    apply (simp add: cstr_def L_def wc_quote_def wc_backslash_def)
    done
  moreover have "naive_split path_two_quoted =
     [L ''C:'' @ wc_backslash # L ''a b'', L ''C:'' @ wc_backslash # L ''c d'']"
    by (simp add: path_two_quoted_def naive_split_def L_def wc_quote_def wc_semicolon_def
          wc_backslash_def)
  ultimately show ?thesis unfolding n by (rule conjI)
qed


section \<open>Properties of the registry reader\<close>

lemma registry_cbData_eq:
  assumes "length subdir \<le> cap" and "cap * 2 < 2 ^ 32"
  shows "registry_cbData cap subdir = 2 * (cap - length subdir)"
proof -
  define A :: "32 word" where "A = of_nat (cap * 2)"
  define B :: "32 word" where "B = of_nat (length subdir * 2)"
  have a: "unat A = cap * 2"
    unfolding A_def by (rule of_nat_inverse [OF refl]) (use assms in simp)
  have b: "unat B = length subdir * 2"
    unfolding B_def by (rule of_nat_inverse [OF refl]) (use assms in simp)
  have "B \<le> A"
    using assms by (simp add: word_le_nat_alt a b)
  then have "unat (A - B) = unat A - unat B"
    by (rule unat_sub)
  then have "unat (A - B) = 2 * (cap - length subdir)"
    by (simp add: a b diff_mult_distrib2 mult.commute)
  then show ?thesis
    unfolding registry_cbData_def A_def B_def .
qed

text \<open>
  Claim C4.  For an array of \<open>cap\<close> wide characters and a suffix shorter than it, the
  size passed to the registry query is the capacity minus the suffix length
  (\<open>2 * (cap - length subdir)\<close> bytes).  A stored string of exactly
  \<open>cap - length subdir - 1\<close> characters is read, the suffix is appended within the array
  and the result is the normalized concatenation.  A string one character longer makes
  the query fail: the result is not-found, the caller's string is untouched and
  \<^verbatim>\<open>wcscat\<close> is never reached.
\<close>

theorem registry_capacity_boundary:
  assumes "length subdir < cap" and "cap * 2 < 2 ^ 32"
    and "reg_open os hive key = Some hKey"
    and "hKey (L ''InstallLocation'') = Some (REG_SZ, v)"
  shows "registry_cbData cap subdir = 2 * (cap - length subdir)
    \<and> (length v = cap - length subdir - 1 \<longrightarrow>
          RegQueryValueExW hKey (L ''InstallLocation'') (registry_cbData cap subdir) = Some (REG_SZ, v)
          \<and> wcscat cap v subdir = Some (v @ subdir)
          \<and> win32_find_git_in_registry os cap buf hive key subdir =
              (case git_win32_path_to_utf8 (v @ subdir) of
                 None \<Rightarrow> Inr (GIT_ENOTFOUND, buf)
               | Some u \<Rightarrow> Inr (0, git_path_mkposix u)))
    \<and> (length v = cap - length subdir \<longrightarrow>
          RegQueryValueExW hKey (L ''InstallLocation'') (registry_cbData cap subdir) = None
          \<and> win32_find_git_in_registry os cap buf hive key subdir = Inr (GIT_ENOTFOUND, buf))"
proof -
  have cb: "registry_cbData cap subdir = 2 * (cap - length subdir)"
    using assms by (simp add: registry_cbData_eq)
  show ?thesis
    using assms(1,3,4)
    by (auto simp: cb win32_find_git_in_registry_def RegQueryValueExW_def wcscat_def wcscpy_at_def
          win32_path_to_8_def git_str_sets_def GIT_ENOTFOUND_def split: option.splits)
qed

lemma unat_L_char: "unat (of_nat (of_char c) :: wchar) = of_char c"
proof (rule of_nat_inverse [OF refl])
  have "(of_char c :: nat) < 256" by simp
  then show "(of_char c :: nat) < 2 ^ LENGTH(16)" by (rule less_trans) simp
qed

lemma utf8_ascii:
  "\<forall>c\<in>set s. (of_char c :: nat) < 128 \<Longrightarrow> git_win32_path_to_utf8 (L s) = Some s"
  by (induction s) (simp_all add: L_def unat_L_char)

lemma utf8_install:
  "git_win32_path_to_utf8 (install_location @ subdir_mingw)
     = Some (''C:'' @ CHR 0x5C # ''Git'' @ CHR 0x5C # CHR 0x5C # ''mingw64'' @ CHR 0x5C # ''share'' @ CHR 0x5C # ''git'' @ [CHR 0x5C])"
proof -
  have "install_location @ subdir_mingw
    = L (''C:'' @ CHR 0x5C # ''Git'' @ CHR 0x5C # CHR 0x5C # ''mingw64'' @ CHR 0x5C # ''share'' @ CHR 0x5C # ''git'' @ [CHR 0x5C])"
    by (simp add: L_def subdir_mingw_def install_location_def wc_backslash_def)
  then show ?thesis by (simp only: utf8_ascii) (simp add: utf8_ascii)
qed

theorem registry_capacity_boundary_witness:
  "win32_find_git_in_registry os_registry_user 27 ''old'' HKEY_CURRENT_USER
       REG_MSYSGIT_INSTALL_LOCAL subdir_mingw = Inr (0, ''C:/Git//mingw64/share/git/'')
   \<and> win32_find_git_in_registry os_registry_user 26 ''old'' HKEY_CURRENT_USER
       REG_MSYSGIT_INSTALL_LOCAL subdir_mingw = Inr (GIT_ENOTFOUND, ''old'')
   \<and> registry_cbData 27 subdir_mingw = 16"
proof -
  have l: "length subdir_mingw = 19" by (simp add: subdir_mingw_def L_def)
  have v: "length install_location = 7" by (simp add: install_location_def L_def)
  have k: "install_key (L ''InstallLocation'') = Some (REG_SZ, install_location)"
    by (simp add: install_key_def)
  have o: "reg_open os_registry_user HKEY_CURRENT_USER REG_MSYSGIT_INSTALL_LOCAL = Some install_key"
    by (simp add: os_registry_user_def os_empty_def)
  have fits: "length subdir_mingw < 27" "27 * 2 < (2::nat) ^ 32"
    and fits': "length subdir_mingw < 26" "26 * 2 < (2::nat) ^ 32"
    by (simp_all add: l)
  note a = registry_capacity_boundary [OF fits o k, of "''old''"]
  note b = registry_capacity_boundary [OF fits' o k, of "''old''"]
  have "win32_find_git_in_registry os_registry_user 27 ''old'' HKEY_CURRENT_USER
       REG_MSYSGIT_INSTALL_LOCAL subdir_mingw = Inr (0, ''C:/Git//mingw64/share/git/'')"
    using a by (simp add: l v utf8_install git_path_mkposix_def)
  moreover have "win32_find_git_in_registry os_registry_user 26 ''old'' HKEY_CURRENT_USER
       REG_MSYSGIT_INSTALL_LOCAL subdir_mingw = Inr (GIT_ENOTFOUND, ''old'')"
    using b by (simp add: l v)
  moreover have "registry_cbData 27 subdir_mingw = 16"
    using a by (simp add: l)
  ultimately show ?thesis by simp
qed

lemma registry_hit:
  assumes "length v + length subdir + 1 \<le> cap" and "cap * 2 < 2 ^ 32"
    and "reg_open os hive key = Some hKey"
    and "hKey (L ''InstallLocation'') = Some (REG_SZ, v)"
  shows "win32_find_git_in_registry os cap buf hive key subdir =
              (case git_win32_path_to_utf8 (v @ subdir) of
                 None \<Rightarrow> Inr (GIT_ENOTFOUND, buf)
               | Some u \<Rightarrow> Inr (0, git_path_mkposix u))"
proof -
  have cb: "registry_cbData cap subdir = 2 * (cap - length subdir)"
    using assms by (simp add: registry_cbData_eq)
  show ?thesis
    using assms(1,3,4)
    by (auto simp: cb win32_find_git_in_registry_def RegQueryValueExW_def wcscat_def wcscpy_at_def
          win32_path_to_8_def git_str_sets_def GIT_ENOTFOUND_def split: option.splits)
qed

lemma registry_absent:
  "reg_open os hive key = None \<Longrightarrow>
     win32_find_git_in_registry os cap buf hive key subdir = Inr (GIT_ENOTFOUND, buf)"
  by (simp add: win32_find_git_in_registry_def)

lemma find_git_in_path_unset:
  "wgetenv os (L ''PATH'') = None \<Longrightarrow>
     win32_find_git_in_path os cap buf gitexe subdir = Inr (- 1, buf)"
  by (simp add: win32_find_git_in_path_def)

lemma mkposix_install:
  "git_path_mkposix (''C:'' @ CHR 0x5C # ''Git'' @ CHR 0x5C # CHR 0x5C # ''mingw64'' @ CHR 0x5C # ''share'' @ CHR 0x5C # ''git'' @ [CHR 0x5C])
    = ''C:/Git//mingw64/share/git/''"
  by (simp add: git_path_mkposix_def)

lemma system_dirs_registry_only:
  assumes "wgetenv os (L ''PATH'') = None"
    and "(h0 = HKEY_CURRENT_USER \<and> k0 = REG_MSYSGIT_INSTALL_LOCAL)
         \<or> (h0 = HKEY_LOCAL_MACHINE \<and> k0 = REG_MSYSGIT_INSTALL win64)"
    and "\<forall>h k. reg_open os h k = (if h = h0 \<and> k = k0 then Some hKey else None)"
    and "hKey (L ''InstallLocation'') = Some (REG_SZ, install_location)"
    and "27 \<le> cap" and "cap * 2 < 2 ^ 32"
  shows "git_win32__find_system_dirs os win64 cap out subdir_mingw
           = Inr (0, ''C:/Git//mingw64/share/git/'')"
proof -
  have l: "length subdir_mingw = 19" by (simp add: subdir_mingw_def L_def)
  have v: "length install_location = 7" by (simp add: install_location_def L_def)
  have fit: "length install_location + length subdir_mingw + 1 \<le> cap"
    using assms(5) by (simp add: l v)
  have hit: "win32_find_git_in_registry os cap buf h0 k0 subdir_mingw
               = Inr (0, ''C:/Git//mingw64/share/git/'')" for buf
  proof -
    have "reg_open os h0 k0 = Some hKey" using assms(3) by simp
    from registry_hit [OF fit assms(6) this assms(4)] show ?thesis
      by (simp add: utf8_install git_path_mkposix_def)
  qed
  from assms(2) show ?thesis
  proof
    assume u: "h0 = HKEY_CURRENT_USER \<and> k0 = REG_MSYSGIT_INSTALL_LOCAL"
    then have "reg_open os HKEY_LOCAL_MACHINE (REG_MSYSGIT_INSTALL win64) = None"
      using assms(3) by simp
    then show ?thesis
      using hit u assms(1)
      by (simp add: git_win32__find_system_dirs_def find_git_in_path_unset registry_absent
            git_str_clear_def git_str_join_def git_str_oom_def GIT_ENOTFOUND_def)
  next
    assume m: "h0 = HKEY_LOCAL_MACHINE \<and> k0 = REG_MSYSGIT_INSTALL win64"
    then have "reg_open os HKEY_CURRENT_USER REG_MSYSGIT_INSTALL_LOCAL = None"
      using assms(3) by simp
    then show ?thesis
      using hit m assms(1)
      by (simp add: git_win32__find_system_dirs_def find_git_in_path_unset registry_absent
            git_str_clear_def git_str_join_def git_str_oom_def GIT_ENOTFOUND_def)
  qed
qed

text \<open>
  Claim C1, as amended.  With \<open>PATH\<close> unset and exactly one registry record, whose
  \<open>InstallLocation\<close> is the string \<^verbatim>\<open>C:\Git\\<close>, \<^verbatim>\<open>git_win32__find_system_dirs\<close> called
  with \<^verbatim>\<open>\mingw64\share\git\\<close> returns status 0 and the single entry
  \<^verbatim>\<open>C:/Git//mingw64/share/git/\<close>, whatever the output string held before: the value and
  the suffix are concatenated as they are, and the backslash that ends the one and the
  backslash that begins the other both become slashes.
\<close>

theorem registry_only_system_dirs:
  assumes "wgetenv os (L ''PATH'') = None"
    and "(h0 = HKEY_CURRENT_USER \<and> k0 = REG_MSYSGIT_INSTALL_LOCAL)
         \<or> (h0 = HKEY_LOCAL_MACHINE \<and> k0 = REG_MSYSGIT_INSTALL win64)"
    and "\<forall>h k. reg_open os h k = (if h = h0 \<and> k = k0 then Some hKey else None)"
    and "hKey (L ''InstallLocation'') = Some (REG_SZ, install_location)"
    and "27 \<le> cap" and "cap * 2 < 2 ^ 32"
  shows "git_win32__find_system_dirs os win64 cap out subdir_mingw
           = Inr (0, ''C:/Git//mingw64/share/git/'')"
  using assms by (rule system_dirs_registry_only)

theorem registry_only_system_dirs_witness:
  "git_win32__find_system_dirs os_registry_user False 4102 ''prior'' subdir_mingw
     = Inr (0, ''C:/Git//mingw64/share/git/'')"
  using registry_only_system_dirs [of os_registry_user HKEY_CURRENT_USER
      REG_MSYSGIT_INSTALL_LOCAL False install_key 4102 "''prior''"]
  by (simp add: os_registry_user_def os_empty_def install_key_def)

text \<open>
  The claim as stated names the entry \<^verbatim>\<open>C:/Git/mingw64/share/git/\<close>, with one slash
  after \<open>Git\<close>; the code does not return it.
\<close>

theorem registry_only_system_dirs_counterexample:
  "git_win32__find_system_dirs os_registry_machine True 4102 [] subdir_mingw
     \<noteq> Inr (0, ''C:/Git/mingw64/share/git/'')"
proof -
  have "git_win32__find_system_dirs os_registry_machine True 4102 [] subdir_mingw
     = Inr (0, ''C:/Git//mingw64/share/git/'')"
    using system_dirs_registry_only [of os_registry_machine HKEY_LOCAL_MACHINE
      "REG_MSYSGIT_INSTALL True" True install_key 4102 "[]"]
    by (simp add: os_registry_machine_def os_empty_def install_key_def)
  then show ?thesis by simp
qed


section \<open>Properties of template expansion and of the prober\<close>

lemma expand_scan_name:
  "wc_percent \<notin> set name \<Longrightarrow>
     expand_scan env (Some acc) (name @ wc_percent # rest) =
       (case env (acc @ name) of
          Some v \<Rightarrow> v @ expand_scan env None rest
        | None \<Rightarrow> wc_percent # (acc @ name) @ wc_percent # expand_scan env None rest)"
  by (induction name arbitrary: acc) (auto split: option.splits)

lemma windows_expand_undefined:
  assumes "wc_percent \<notin> set name" and "env name = None"
  shows "windows_expand env (wc_percent # name @ wc_percent # rest)
           = wc_percent # name @ wc_percent # windows_expand env rest"
  using assms by (simp add: windows_expand_def expand_scan_name)

lemma find_existing_dirs_loop_append:
  "find_existing_dirs_loop os cap out buf (ts1 @ ts2) =
     (case find_existing_dirs_loop os cap out buf ts1 of
        (out', buf') \<Rightarrow> find_existing_dirs_loop os cap out' buf' ts2)"
  by (induction ts1 arbitrary: out buf) (auto split: prod.splits)

lemma expand_path_fails_iff:
  "fst (git_win32__expand_path os cap src) \<noteq> 0 \<longleftrightarrow>
     (fst (ExpandEnvironmentStringsW os src cap) = 0 \<or> cap < fst (ExpandEnvironmentStringsW os src cap))"
  by (auto simp: git_win32__expand_path_def split: prod.splits)

lemma loop_skip:
  assumes "fst (git_win32__expand_path os cap t) \<noteq> 0
           \<or> (\<exists>s. ff_path (snd (git_win32__expand_path os cap t)) = wc_percent # s)"
  shows "find_existing_dirs_loop os cap out buf (t # ts) = find_existing_dirs_loop os cap out buf ts"
  using assms by (auto split: prod.splits)

lemma prober_skip:
  assumes "fst (git_win32__expand_path os cap t) \<noteq> 0
           \<or> (\<exists>s. ff_path (snd (git_win32__expand_path os cap t)) = wc_percent # s)"
  shows "win32_find_existing_dirs os cap out (ts1 @ t # ts2) = win32_find_existing_dirs os cap out (ts1 @ ts2)"
  unfolding win32_find_existing_dirs_def find_existing_dirs_loop_append
  using loop_skip [OF assms] by (simp split: prod.splits)


text \<open>
  Claim C5, as amended.  \<^verbatim>\<open>git_win32__expand_path\<close> fails exactly when the primitive
  reports zero or reports a length (terminator included) greater than the capacity.
  A reported length equal to the capacity succeeds.  Counted without the terminator,
  an expansion fails exactly when it has at least as many characters as the array.
  On success the array holds the whole expansion, and on failure the template adds
  nothing to the prober's output.
\<close>

theorem expand_path_fails_exactly:
  "(fst (git_win32__expand_path os cap src) \<noteq> 0 \<longleftrightarrow>
      (fst (ExpandEnvironmentStringsW os src cap) = 0
       \<or> cap < fst (ExpandEnvironmentStringsW os src cap)))
   \<and> (fst (ExpandEnvironmentStringsW os src cap) = cap \<and> 0 < cap \<longrightarrow>
        fst (git_win32__expand_path os cap src) = 0)
   \<and> (\<forall>s. expand_env os src = Some s \<longrightarrow>
        (fst (git_win32__expand_path os cap src) \<noteq> 0 \<longleftrightarrow> cap \<le> length s))
   \<and> (fst (git_win32__expand_path os cap src) = 0 \<longrightarrow>
        expand_env os src = Some (ff_path (snd (git_win32__expand_path os cap src))))
   \<and> (fst (git_win32__expand_path os cap src) \<noteq> 0 \<longrightarrow>
        win32_find_existing_dirs os cap out (ts1 @ src # ts2)
          = win32_find_existing_dirs os cap out (ts1 @ ts2))"
proof -
  have d: "\<forall>s. expand_env os src = Some s \<longrightarrow>
        (fst (git_win32__expand_path os cap src) \<noteq> 0 \<longleftrightarrow> cap \<le> length s)"
    by (auto simp: git_win32__expand_path_def ExpandEnvironmentStringsW_def)
  have a: "fst (git_win32__expand_path os cap src) \<noteq> 0 \<longleftrightarrow>
      (fst (ExpandEnvironmentStringsW os src cap) = 0
       \<or> cap < fst (ExpandEnvironmentStringsW os src cap))"
    by (rule expand_path_fails_iff)
  have b: "fst (git_win32__expand_path os cap src) = 0 \<longrightarrow>
        expand_env os src = Some (ff_path (snd (git_win32__expand_path os cap src)))"
    by (auto simp: git_win32__expand_path_def ExpandEnvironmentStringsW_def
          split: prod.splits option.splits if_splits)
  have c: "fst (git_win32__expand_path os cap src) \<noteq> 0 \<longrightarrow>
        win32_find_existing_dirs os cap out (ts1 @ src # ts2)
          = win32_find_existing_dirs os cap out (ts1 @ ts2)"
    using prober_skip [of os cap src out ts1 ts2] by blast
  from a b c d show ?thesis by auto
qed

lemma expand_X: "windows_expand (\<lambda>n. if n = L ''X'' then Some v else None) (L ''%X%'') = v"
  by (simp add: windows_expand_def L_def wc_percent_def)

lemma expand_api_exact_fit:
  "ExpandEnvironmentStringsW os_exact_fit (L ''%X%'') cap =
     (4102, if 4102 \<le> cap then replicate 4101 0x61 else take (cap - 1) (replicate 4101 0x61))"
  by (simp add: ExpandEnvironmentStringsW_def os_exact_fit_def os_of_env_def expand_X)

theorem expand_path_fails_exactly_witness:
  "fst (git_win32__expand_path os_exact_fit 4102 (L ''%X%'')) = 0
   \<and> fst (git_win32__expand_path os_exact_fit 4101 (L ''%X%'')) \<noteq> 0
   \<and> win32_find_existing_dirs os_exact_fit 4101 ''prior'' [L ''%X%''] = (0, [])"
  using expand_path_fails_exactly [of os_exact_fit 4102 "L ''%X%''" "''prior''" "[]" "[]"]
    expand_path_fails_exactly [of os_exact_fit 4101 "L ''%X%''" "''prior''" "[]" "[]"]
  by (simp add: expand_api_exact_fit win32_find_existing_dirs_def git_str_clear_def git_str_oom_def)

text \<open>
  The claim as stated has a required length equal to the capacity fail.  Here the
  primitive reports 4102 for an array of 4102 characters and the expansion succeeds,
  with all 4101 characters stored.
\<close>

theorem expand_path_exact_fit_counterexample:
  "fst (ExpandEnvironmentStringsW os_exact_fit (L ''%X%'') 4102) = 4102
   \<and> git_win32__expand_path os_exact_fit 4102 (L ''%X%'')
       = (0, \<lparr>ff_path = replicate 4101 0x61, ff_len = 4102\<rparr>)"
  by (simp add: git_win32__expand_path_def expand_api_exact_fit)

text \<open>
  Claim C6, as amended.  When the variable whose reference begins a template is
  undefined, the expansion still begins with \<open>%\<close> and the template adds nothing: the
  prober's result is what it is without the template.  The only test the code makes
  is on the first character of the expansion.
\<close>

theorem undefined_leading_variable_skipped:
  assumes "expand_env os = (\<lambda>t. Some (windows_expand (wgetenv os) t))"
    and "t = wc_percent # name @ wc_percent # rest"
    and "wc_percent \<notin> set name"
    and "wgetenv os name = None"
  shows "(\<exists>s. expand_env os t = Some (wc_percent # s))
         \<and> win32_find_existing_dirs os cap out (ts1 @ t # ts2)
             = win32_find_existing_dirs os cap out (ts1 @ ts2)"
proof -
  have e: "expand_env os t = Some (wc_percent # name @ wc_percent # windows_expand (wgetenv os) rest)"
    using assms by (simp add: windows_expand_undefined)
  have "fst (git_win32__expand_path os cap t) \<noteq> 0
           \<or> (\<exists>s. ff_path (snd (git_win32__expand_path os cap t)) = wc_percent # s)"
    by (auto simp: git_win32__expand_path_def ExpandEnvironmentStringsW_def e)
  from prober_skip [OF this] e show ?thesis by simp
qed

theorem undefined_leading_variable_skipped_witness:
  "wgetenv os_homedrive_only (L ''HOME'') = None
   \<and> git_win32__find_global_dirs os_homedrive_only 4102 ''prior''
       = win32_find_existing_dirs os_homedrive_only 4102 ''prior'' (tl global_tmpls)"
  using undefined_leading_variable_skipped [of os_homedrive_only "L ''%HOME%'' @ [wc_backslash]"
      "L ''HOME''" "[wc_backslash]" 4102 "''prior''" "[]" "tl global_tmpls"]
  by (simp add: git_win32__find_global_dirs_def global_tmpls_def os_homedrive_only_def
        os_of_env_def L_def wc_percent_def wc_backslash_def)

lemma expand_home: "windows_expand (wgetenv os_homedrive_only) (L ''%HOME%'' @ [wc_backslash])
    = L ''%HOME%'' @ [wc_backslash]"
  by (simp add: os_homedrive_only_def os_of_env_def windows_expand_def L_def wc_percent_def wc_backslash_def)

lemma expand_userprofile: "windows_expand (wgetenv os_homedrive_only) (L ''%USERPROFILE%'' @ [wc_backslash])
    = L ''%USERPROFILE%'' @ [wc_backslash]"
  by (simp add: os_homedrive_only_def os_of_env_def windows_expand_def L_def wc_percent_def wc_backslash_def)

lemma expand_homedrive: "windows_expand (wgetenv os_homedrive_only) (L ''%HOMEDRIVE%%HOMEPATH%'' @ [wc_backslash])
    = L ''C:%HOMEPATH%'' @ [wc_backslash]"
  by (simp add: os_homedrive_only_def os_of_env_def windows_expand_def L_def wc_percent_def wc_backslash_def)

lemma utf8_homepath:
  "git_win32_path_to_utf8 (L ''C:%HOMEPATH%'' @ [wc_backslash]) = Some (''C:%HOMEPATH%'' @ [CHR 0x5C])"
proof -
  have "L ''C:%HOMEPATH%'' @ [wc_backslash] = L (''C:%HOMEPATH%'' @ [CHR 0x5C])"
    by (simp add: L_def wc_backslash_def)
  then show ?thesis by (simp only: utf8_ascii) (simp add: utf8_ascii)
qed

text \<open>
  The claim as stated has no entry contain an unexpanded token when a referenced
  variable is undefined.  With \<open>HOMEDRIVE\<close> defined and \<open>HOMEPATH\<close> not, the second
  global template expands to \<^verbatim>\<open>C:%HOMEPATH%\\<close>, which does not begin with \<open>%\<close>; the
  directory exists, so the entry is returned.
\<close>

theorem unexpanded_token_counterexample:
  "wgetenv os_homedrive_only (L ''HOMEPATH'') = None
   \<and> git_win32__find_global_dirs os_homedrive_only 4102 ''prior'' = (0, ''C:%HOMEPATH%/'')"
proof -
  let ?P = "L ''C:%HOMEPATH%'' @ [wc_backslash]"
  have x: "expand_env os_homedrive_only t = Some (windows_expand (wgetenv os_homedrive_only) t)" for t
    by (simp add: os_homedrive_only_def os_of_env_def)
  have f: "waccess os_homedrive_only ?P"
    by (simp add: os_homedrive_only_def os_of_env_def)
  have e1: "fst (git_win32__expand_path os_homedrive_only 4102 (L ''%HOME%'' @ [wc_backslash])) \<noteq> 0
      \<or> (\<exists>s. ff_path (snd (git_win32__expand_path os_homedrive_only 4102 (L ''%HOME%'' @ [wc_backslash])))
            = wc_percent # s)"
    by (simp add: git_win32__expand_path_def ExpandEnvironmentStringsW_def x expand_home)
      (simp add: L_def wc_percent_def)
  have e3: "fst (git_win32__expand_path os_homedrive_only 4102 (L ''%USERPROFILE%'' @ [wc_backslash])) \<noteq> 0
      \<or> (\<exists>s. ff_path (snd (git_win32__expand_path os_homedrive_only 4102
            (L ''%USERPROFILE%'' @ [wc_backslash]))) = wc_percent # s)"
    by (simp add: git_win32__expand_path_def ExpandEnvironmentStringsW_def x expand_userprofile)
      (simp add: L_def wc_percent_def)
  have e2: "git_win32__expand_path os_homedrive_only 4102 (L ''%HOMEDRIVE%%HOMEPATH%'' @ [wc_backslash])
      = (0, \<lparr>ff_path = ?P, ff_len = 14\<rparr>)"
    by (simp add: git_win32__expand_path_def ExpandEnvironmentStringsW_def x expand_homedrive)
      (simp add: L_def)
  have hd: "(case ?P of [] \<Rightarrow> True | c # rest \<Rightarrow> c \<noteq> wc_percent)"
    by (simp add: L_def wc_percent_def)
  have conv: "win32_path_to_8 buf ?P = (0, ''C:%HOMEPATH%/'')" for buf
    by (simp add: win32_path_to_8_def utf8_homepath git_str_sets_def git_path_mkposix_def)
  have "find_existing_dirs_loop os_homedrive_only 4102 [] [] global_tmpls
          = (''C:%HOMEPATH%/'', ''C:%HOMEPATH%/'')"
    unfolding global_tmpls_def
    apply (subst loop_skip [OF e1])
    apply (subst find_existing_dirs_loop.simps)
    apply (simp only: e2 prod.case findfile_path.simps hd f conv simp_thms if_True)
    apply (simp add: git_str_join_def del: find_existing_dirs_loop.simps)
    apply (subst loop_skip [OF e3])
    apply simp
    done
  then have "git_win32__find_global_dirs os_homedrive_only 4102 ''prior'' = (0, ''C:%HOMEPATH%/'')"
    by (simp add: git_win32__find_global_dirs_def win32_find_existing_dirs_def git_str_clear_def
          git_str_oom_def)
  then show ?thesis by (simp add: os_homedrive_only_def os_of_env_def L_def)
qed


section \<open>The locator's substitution\<close>

lemma walk_plain:
  assumes "plain_entry e" and "tail = [] \<or> (\<exists>r. tail = wc_semicolon # r)"
  shows "win32_walkpath (e @ tail) (MAX_PATH - 1)
           = (e @ [0], Some (dropWhile (\<lambda>c. c = wc_semicolon) tail))"
proof -
  obtain c cs where e: "e = c # cs" using assms(1) by (cases e) (auto simp: plain_entry_def)
  have q: "c \<noteq> wc_quote" using assms(1) e by (simp add: plain_entry_def)
  have tw: "takeWhile (\<lambda>x. x \<noteq> wc_semicolon) (e @ tail) = e"
    using assms by (auto simp: plain_entry_def takeWhile_append)
  have len: "length e \<le> 258" using assms(1) by (simp add: plain_entry_def MAX_PATH_def)
  have ne: "length (dropWhile P tail) \<noteq> length e + length tail" for P
    using length_dropWhile_le [of P tail] e by simp
  show ?thesis
    unfolding win32_walkpath_eq
    using q len ne by (simp add: Let_def MAX_PATH_def tw e [symmetric])
      (simp add: e)
qed

lemma loop_step_plain:
  assumes "plain_entry e" and "tail = [] \<or> (\<exists>r. tail = wc_semicolon # r)"
    and "MAX_PATH \<le> cap"
  shows "find_git_in_path_loop os cap buf gitexe subdir (e @ tail) =
    (if probe_hits os gitexe e then
       (case wcscpy_at cap (with_trailing_slash e @ gitexe)
               (length (with_trailing_slash e) - 4) subdir of
          None \<Rightarrow> Inl Overflow
        | Some found \<Rightarrow> Inr (0, snd (win32_path_to_8 buf found)))
     else find_git_in_path_loop os cap buf gitexe subdir
            (dropWhile (\<lambda>c. c = wc_semicolon) tail))"
proof -
  have c: "cstr (e @ [0]) = e" using assms(1) by (simp add: cstr_append_nul plain_entry_def)
  have len: "length e \<le> 258" "e \<noteq> []" using assms(1) by (simp_all add: plain_entry_def MAX_PATH_def)
  have cap: "260 \<le> cap" using assms(3) by (simp add: MAX_PATH_def)
  have sl: "(if last e \<noteq> wc_slash \<and> last e \<noteq> wc_backslash
             then wcscpy_at cap e (length e) [wc_backslash] else Some e)
            = Some (with_trailing_slash e)"
    using len cap by (simp add: wcscpy_at_def with_trailing_slash_def)
  have cp: "length (with_trailing_slash e) + length gitexe < MAX_PATH \<Longrightarrow>
      wcscpy_at cap (with_trailing_slash e) (length (with_trailing_slash e)) gitexe
        = Some (with_trailing_slash e @ gitexe)"
    using cap by (simp add: wcscpy_at_def MAX_PATH_def)
  show ?thesis
    apply (subst find_git_in_path_loop.simps)
    apply (simp only: walk_plain [OF assms(1,2)] prod.case option.case c Let_def sl)
    using len cap cp by (auto simp: probe_hits_def)
qed

lemma loop_skip_misses:
  assumes "\<forall>x\<in>set ms. plain_entry (fst x) \<and> \<not> probe_hits os gitexe (fst x)"
    and "plain_entry e" and "MAX_PATH \<le> cap"
  shows "find_git_in_path_loop os cap buf gitexe subdir (path_prefix ms @ e @ tail)
         = find_git_in_path_loop os cap buf gitexe subdir (e @ tail)"
  using assms(1)
proof (induction ms)
  case Nil
  show ?case by (simp add: path_prefix_def)
next
  case (Cons x ms)
  let ?rest = "path_prefix ms @ e @ tail"
  have nosemi: "hd ?rest \<noteq> wc_semicolon \<and> ?rest \<noteq> []"
  proof (cases ms)
    case Nil
    then show ?thesis using assms(2) by (cases e) (auto simp: plain_entry_def path_prefix_def)
  next
    case (Cons x' ms')
    then have "plain_entry (fst x')" using Cons.prems by simp
    then show ?thesis using Cons by (cases "fst x'") (auto simp: plain_entry_def path_prefix_def)
  qed
  then have dw: "dropWhile (\<lambda>c. c = wc_semicolon) (replicate (Suc (snd x)) wc_semicolon @ ?rest)
                   = ?rest"
    by (cases ?rest) (auto simp: dropWhile_append3)
  have t: "replicate (Suc (snd x)) wc_semicolon @ ?rest = []
           \<or> (\<exists>r. replicate (Suc (snd x)) wc_semicolon @ ?rest = wc_semicolon # r)"
    by simp
  have p: "plain_entry (fst x)" and m: "\<not> probe_hits os gitexe (fst x)"
    using Cons.prems by simp_all
  have "find_git_in_path_loop os cap buf gitexe subdir
          (fst x @ replicate (Suc (snd x)) wc_semicolon @ ?rest)
          = find_git_in_path_loop os cap buf gitexe subdir ?rest"
    unfolding loop_step_plain [OF p t assms(3)] dw using m by simp
  moreover have "path_prefix (x # ms) @ e @ tail
          = fst x @ replicate (Suc (snd x)) wc_semicolon @ ?rest"
    by (simp add: path_prefix_def)
  ultimately show ?case using Cons by simp
qed

lemma locator_first_hit_raw:
  assumes "wgetenv os (L ''PATH'') = Some (path_prefix ms @ e @ tail)"
    and "tail = [] \<or> (\<exists>r. tail = wc_semicolon # r)"
    and "\<forall>x\<in>set ms. plain_entry (fst x) \<and> \<not> probe_hits os gitexe (fst x)"
    and "plain_entry e" and "probe_hits os gitexe e"
    and "with_trailing_slash e = p @ s" and "length s = 4"
    and "MAX_PATH \<le> cap" and "length p + length subdir + 1 \<le> cap"
  shows "win32_find_git_in_path os cap buf gitexe subdir
           = Inr (0, snd (win32_path_to_8 buf (p @ subdir)))"
proof -
  have "win32_find_git_in_path os cap buf gitexe subdir
          = find_git_in_path_loop os cap buf gitexe subdir (e @ tail)"
    using assms(1) loop_skip_misses [OF assms(3,4,8)] by (simp add: win32_find_git_in_path_def)
  also have "\<dots> = (case wcscpy_at cap (with_trailing_slash e @ gitexe)
               (length (with_trailing_slash e) - 4) subdir of
          None \<Rightarrow> Inl Overflow
        | Some found \<Rightarrow> Inr (0, snd (win32_path_to_8 buf found)))"
    using loop_step_plain [OF assms(4,2,8)] assms(5) by simp
  also have "wcscpy_at cap (with_trailing_slash e @ gitexe)
               (length (with_trailing_slash e) - 4) subdir = Some (p @ subdir)"
    using assms(6,7,9) by (simp add: wcscpy_at_def)
  finally show ?thesis by simp
qed

lemma locator_first_hit:
  assumes "wgetenv os (L ''PATH'') = Some (path_prefix ms @ e @ tail)"
    and "tail = [] \<or> (\<exists>r. tail = wc_semicolon # r)"
    and "\<forall>x\<in>set ms. plain_entry (fst x) \<and> \<not> probe_hits os gitexe (fst x)"
    and "plain_entry e" and "probe_hits os gitexe e"
    and "with_trailing_slash e = p @ s" and "length s = 4"
    and "MAX_PATH \<le> cap" and "length p + length subdir + 1 \<le> cap"
    and "git_win32_path_to_utf8 (p @ subdir) = Some u"
  shows "win32_find_git_in_path os cap buf gitexe subdir = Inr (0, git_path_mkposix u)"
  using locator_first_hit_raw [OF assms(1-9)] assms(10)
  by (simp add: win32_path_to_8_def git_str_sets_def)





lemma L_unfold: "L (c # s) = of_nat (of_char c) # L s" "L [] = []"
  by (simp_all add: L_def)

lemmas wc_defs = wc_quote_def wc_semicolon_def wc_slash_def wc_backslash_def wc_percent_def



lemma plain_mingw: "plain_entry dir_git_mingw64"
  by (simp add: plain_entry_def dir_git_mingw64_def L_unfold wc_defs MAX_PATH_def)



lemma slash_mingw: "with_trailing_slash dir_git_mingw64 = dir_git_mingw64 @ [wc_backslash]"
  by (simp add: with_trailing_slash_def dir_git_mingw64_def L_unfold wc_defs)



lemma hit_mingw: "probe_hits os_mingw (L ''git.exe'') dir_git_mingw64"
  unfolding probe_hits_def slash_mingw
  by (simp add: os_mingw_def os_empty_def MAX_PATH_def) (simp add: dir_git_mingw64_def L_def)


lemma utf8_ming_share:
  "git_win32_path_to_utf8
     ((L ''C:'' @ wc_backslash # L ''Git'' @ wc_backslash # L ''ming'') @ subdir_share)
   = Some (''C:'' @ CHR 0x5C # ''Git'' @ CHR 0x5C # ''ming'' @ CHR 0x5C # ''share''
           @ CHR 0x5C # ''foo'' @ [CHR 0x5C])"
proof -
  have "(L ''C:'' @ wc_backslash # L ''Git'' @ wc_backslash # L ''ming'') @ subdir_share
    = L (''C:'' @ CHR 0x5C # ''Git'' @ CHR 0x5C # ''ming'' @ CHR 0x5C # ''share''
           @ CHR 0x5C # ''foo'' @ [CHR 0x5C])"
    by (simp add: L_def subdir_share_def wc_backslash_def)
  then show ?thesis by (simp only: utf8_ascii) (simp add: utf8_ascii)
qed





text \<open>
  The source comments the substitution as replacing \<^verbatim>\<open>bin\\<close> or \<^verbatim>\<open>cmd\\<close>, but the final
  segment is never looked at.  For the entry \<^verbatim>\<open>C:\Git\mingw64\<close> the four characters cut
  are \<^verbatim>\<open>w64\\<close>: the result is built on \<^verbatim>\<open>C:\Git\ming\<close>, not on the parent \<^verbatim>\<open>C:\Git\\<close>.
\<close>

lemma locator_cut_inside_segment:
  "win32_find_git_in_path os_mingw 4102 ''old'' (L ''git.exe'') subdir_share
     = Inr (0, ''C:/Git/ming/share/foo/'')
   \<and> parent_dir (with_trailing_slash dir_git_mingw64) = L ''C:'' @ wc_backslash # L ''Git'' @ [wc_backslash]"
proof -
  have path: "wgetenv os_mingw (L ''PATH'') = Some (path_prefix [] @ dir_git_mingw64 @ [])"
    by (simp add: os_mingw_def os_empty_def path_prefix_def)
  have split: "with_trailing_slash dir_git_mingw64
      = (L ''C:'' @ wc_backslash # L ''Git'' @ wc_backslash # L ''ming'') @ (L ''w64'' @ [wc_backslash])"
    unfolding slash_mingw by (simp add: dir_git_mingw64_def L_def)
  have "win32_find_git_in_path os_mingw 4102 ''old'' (L ''git.exe'') subdir_share
     = Inr (0, git_path_mkposix (''C:'' @ CHR 0x5C # ''Git'' @ CHR 0x5C # ''ming'' @ CHR 0x5C # ''share''
           @ CHR 0x5C # ''foo'' @ [CHR 0x5C]))"
  proof (rule locator_first_hit [OF path _ _ plain_mingw hit_mingw split _ _ _ utf8_ming_share])
    show "[] = [] \<or> (\<exists>r. [] = wc_semicolon # r)" by simp
    show "\<forall>x\<in>set []. plain_entry (fst x) \<and> \<not> probe_hits os_mingw (L ''git.exe'') (fst x)" by simp
    show "length (L ''w64'' @ [wc_backslash]) = 4" by (simp add: L_def)
    show "MAX_PATH \<le> 4102" by (simp add: MAX_PATH_def)
    show "length (L ''C:'' @ wc_backslash # L ''Git'' @ wc_backslash # L ''ming'')
            + length subdir_share + 1 \<le> 4102"
      by (simp add: L_def subdir_share_def)
  qed
  moreover have "parent_dir (with_trailing_slash dir_git_mingw64)
      = L ''C:'' @ wc_backslash # L ''Git'' @ [wc_backslash]"
    unfolding slash_mingw by (simp add: parent_dir_def dir_git_mingw64_def L_unfold wc_defs)
  ultimately show ?thesis by (simp add: git_path_mkposix_def)
qed

section \<open>The system-directories aggregator\<close>

text \<open>
  The aggregator in terms of its four calls: whatever the output string held, the
  result is status 0 and the scratch strings left by the calls that returned 0 with a
  non-empty scratch string, joined in call order.
\<close>

lemma system_dirs_from_calls:
  assumes "win32_find_git_in_path os cap [] (L ''git.exe'') subdir = Inr (e1, b1)"
    and "win32_find_git_in_path os cap b1 (L ''git.cmd'') subdir = Inr (e2, b2)"
    and "win32_find_git_in_registry os cap b2 HKEY_CURRENT_USER REG_MSYSGIT_INSTALL_LOCAL subdir
           = Inr (e3, b3)"
    and "win32_find_git_in_registry os cap b3 HKEY_LOCAL_MACHINE (REG_MSYSGIT_INSTALL win64) subdir
           = Inr (e4, b4)"
  shows "git_win32__find_system_dirs os win64 cap out subdir =
           Inr (0, join_entries (List.map_filter (\<lambda>x. x)
                  [source_entry e1 b1, source_entry e2 b2, source_entry e3 b3, source_entry e4 b4]))"
  using assms
  by (simp add: git_win32__find_system_dirs_def source_entry_def git_str_set_def
        git_str_clear_def git_str_join_def git_str_oom_def Let_def)

lemma plain_git_bin: "plain_entry dir_git_bin"
  by (simp add: plain_entry_def dir_git_bin_def L_unfold wc_defs MAX_PATH_def)

lemma plain_surrogate_cmd: "plain_entry dir_surrogate_cmd"
  by (simp add: plain_entry_def dir_surrogate_cmd_def L_unfold wc_defs MAX_PATH_def)

lemma slash_git_bin: "with_trailing_slash dir_git_bin = dir_git_bin @ [wc_backslash]"
  by (simp add: with_trailing_slash_def dir_git_bin_def L_unfold wc_defs)

lemma slash_surrogate_cmd:
  "with_trailing_slash dir_surrogate_cmd = dir_surrogate_cmd @ [wc_backslash]"
  by (simp add: with_trailing_slash_def dir_surrogate_cmd_def L_unfold wc_defs)

lemma utf8_git_share:
  "git_win32_path_to_utf8 ((L ''C:'' @ wc_backslash # L ''Git'' @ [wc_backslash]) @ subdir_share)
   = Some (''C:'' @ CHR 0x5C # ''Git'' @ CHR 0x5C # CHR 0x5C # ''share''
           @ CHR 0x5C # ''foo'' @ [CHR 0x5C])"
proof -
  have "(L ''C:'' @ wc_backslash # L ''Git'' @ [wc_backslash]) @ subdir_share
    = L (''C:'' @ CHR 0x5C # ''Git'' @ CHR 0x5C # CHR 0x5C # ''share''
           @ CHR 0x5C # ''foo'' @ [CHR 0x5C])"
    by (simp add: L_def subdir_share_def wc_backslash_def)
  then show ?thesis by (simp only: utf8_ascii) (simp add: utf8_ascii)
qed

lemma utf8_surrogate_fails:
  "git_win32_path_to_utf8
     ((L ''C:'' @ wc_backslash # 0xD800 # L ''x'' @ [wc_backslash]) @ subdir_share) = None"
  by (simp add: L_def subdir_share_def wc_backslash_def)

text \<open>
  Claim C7, at an input where the code departs from it.  \<open>PATH\<close> is
  \<^verbatim>\<open>C:\Git\bin;C:\?x\cmd\<close> with \<^verbatim>\<open>?\<close> an unpaired surrogate; \<^verbatim>\<open>git.exe\<close> is in the first
  directory and \<^verbatim>\<open>git.cmd\<close> in the second.  The lookup of \<^verbatim>\<open>git.cmd\<close> hits, the
  conversion of its path fails, and \<^verbatim>\<open>win32_find_git_in_path\<close> returns 0 all the same,
  because it drops the result of \<^verbatim>\<open>win32_path_to_8\<close>: alone it yields no entry, and in
  the aggregator the scratch string still holds the entry of \<^verbatim>\<open>git.exe\<close>, which is
  appended a second time.
\<close>

theorem system_dirs_stale_entry:
  "win32_find_git_in_path os_surrogate_cmd 4102 [] (L ''git.cmd'') subdir_share = Inr (0, [])
   \<and> git_win32__find_system_dirs os_surrogate_cmd False 4102 ''prior'' subdir_share
       = Inr (0, ''C:/Git//share/foo/;C:/Git//share/foo/'')"
proof -
  let ?X = "''C:/Git//share/foo/''"
  let ?pg = "L ''C:'' @ wc_backslash # L ''Git'' @ [wc_backslash]"
  let ?ps = "L ''C:'' @ wc_backslash # 0xD800 # L ''x'' @ [wc_backslash]"
  have cap: "MAX_PATH \<le> 4102" by (simp add: MAX_PATH_def)
  have path1: "wgetenv os_surrogate_cmd (L ''PATH'')
      = Some (path_prefix [] @ dir_git_bin @ wc_semicolon # dir_surrogate_cmd)"
    by (simp add: os_surrogate_cmd_def os_empty_def path_prefix_def)
  have path2: "wgetenv os_surrogate_cmd (L ''PATH'')
      = Some (path_prefix [(dir_git_bin, 0)] @ dir_surrogate_cmd @ [])"
    by (simp add: os_surrogate_cmd_def os_empty_def path_prefix_def)
  have split1: "with_trailing_slash dir_git_bin = ?pg @ (L ''bin'' @ [wc_backslash])"
    unfolding slash_git_bin by (simp add: dir_git_bin_def)
  have split2: "with_trailing_slash dir_surrogate_cmd = ?ps @ (L ''cmd'' @ [wc_backslash])"
    unfolding slash_surrogate_cmd by (simp add: dir_surrogate_cmd_def)
  have hit1: "probe_hits os_surrogate_cmd (L ''git.exe'') dir_git_bin"
    unfolding probe_hits_def slash_git_bin
    by (simp add: os_surrogate_cmd_def os_empty_def MAX_PATH_def) (simp add: dir_git_bin_def L_def)
  have miss2: "\<not> probe_hits os_surrogate_cmd (L ''git.cmd'') dir_git_bin"
    unfolding probe_hits_def slash_git_bin
    by (simp add: os_surrogate_cmd_def os_empty_def dir_git_bin_def dir_surrogate_cmd_def
          L_unfold wc_defs)
  have hit2: "probe_hits os_surrogate_cmd (L ''git.cmd'') dir_surrogate_cmd"
    unfolding probe_hits_def slash_surrogate_cmd
    by (simp add: os_surrogate_cmd_def os_empty_def MAX_PATH_def)
      (simp add: dir_surrogate_cmd_def L_def)
  have l4: "length (L ''bin'' @ [wc_backslash]) = 4" "length (L ''cmd'' @ [wc_backslash]) = 4"
    by (simp_all add: L_def)
  have fit1: "length ?pg + length subdir_share + 1 \<le> 4102"
    and fit2: "length ?ps + length subdir_share + 1 \<le> 4102"
    by (simp_all add: L_def subdir_share_def)
  have t1: "wc_semicolon # dir_surrogate_cmd = [] \<or> (\<exists>r. wc_semicolon # dir_surrogate_cmd = wc_semicolon # r)"
    and t2: "[] = [] \<or> (\<exists>r. [] = wc_semicolon # r)"
    by simp_all
  have none: "\<forall>x\<in>set []. plain_entry (fst x) \<and> \<not> probe_hits os_surrogate_cmd (L ''git.exe'') (fst x)"
    by simp
  have one: "\<forall>x\<in>set [(dir_git_bin, 0)]. plain_entry (fst x)
               \<and> \<not> probe_hits os_surrogate_cmd (L ''git.cmd'') (fst x)"
    by (simp add: plain_git_bin miss2)
  have c1: "win32_find_git_in_path os_surrogate_cmd 4102 [] (L ''git.exe'') subdir_share
              = Inr (0, ?X)"
    using locator_first_hit [OF path1 t1 none plain_git_bin hit1 split1 l4(1) cap fit1 utf8_git_share]
    by (simp add: git_path_mkposix_def)
  have c2: "win32_find_git_in_path os_surrogate_cmd 4102 buf (L ''git.cmd'') subdir_share
              = Inr (0, buf)" for buf
    by (simp only: locator_first_hit_raw
          [OF path2 t2 one plain_surrogate_cmd hit2 split2 l4(2) cap fit2]
          win32_path_to_8_def utf8_surrogate_fails option.case snd_conv)
  have c3: "win32_find_git_in_registry os_surrogate_cmd 4102 ?X HKEY_CURRENT_USER
              REG_MSYSGIT_INSTALL_LOCAL subdir_share = Inr (GIT_ENOTFOUND, ?X)"
    by (rule registry_absent) (simp add: os_surrogate_cmd_def os_empty_def)
  have c4: "win32_find_git_in_registry os_surrogate_cmd 4102 ?X HKEY_LOCAL_MACHINE
              (REG_MSYSGIT_INSTALL False) subdir_share = Inr (GIT_ENOTFOUND, ?X)"
    by (rule registry_absent) (simp add: os_surrogate_cmd_def os_empty_def)
  have "git_win32__find_system_dirs os_surrogate_cmd False 4102 ''prior'' subdir_share
       = Inr (0, ''C:/Git//share/foo/;C:/Git//share/foo/'')"
    using system_dirs_from_calls [OF c1 c2 c3 c4, of "''prior''"]
    by (simp add: source_entry_def GIT_ENOTFOUND_def GIT_PATH_LIST_SEPARATOR_def)
  with c2 [of "[]"] show ?thesis by simp
qed

end
